theory Spec2Isabelle
  imports Main
begin

section \<open>Python strings and POSIX path functions\<close>

text \<open>
  The module \<^verbatim>\<open>cassis_process.py\<close> is Python 2. Its strings are byte strings, modelled as
  \<^typ>\<open>string\<close>. The functions of \<^verbatim>\<open>os.path\<close> it calls are the pure string functions of
  \<^verbatim>\<open>posixpath\<close>; they are written out here as the library defines them.
\<close>

definition slash :: char where
  "slash = CHR ''/''"

definition newline :: char where
  "newline = CHR 0x0A"

definition dquote :: char where
  "dquote = CHR 0x22"

text \<open>\<^verbatim>\<open>p.rfind('/') + 1\<close>: the index just after the last slash, 0 when there is none.\<close>

definition rfind_slash1 :: "string \<Rightarrow> nat" where
  "rfind_slash1 p = length p - length (takeWhile (\<lambda>c. c \<noteq> slash) (rev p))"

text \<open>\<^verbatim>\<open>head.rstrip('/')\<close>\<close>

definition rstrip_slash :: "string \<Rightarrow> string" where
  "rstrip_slash s = rev (dropWhile (\<lambda>c. c = slash) (rev s))"

text \<open>
  \<^verbatim>\<open>posixpath.split\<close>:
  \<^verbatim>\<open>
    i = p.rfind('/') + 1
    head, tail = p[:i], p[i:]
    if head and head != '/'*len(head):
        head = head.rstrip('/')
    return head, tail
  \<close>
\<close>

definition os_path_split :: "string \<Rightarrow> string \<times> string" where
  "os_path_split p =
     (let i = rfind_slash1 p;
          head = take i p;
          tail = drop i p
      in (if head \<noteq> [] \<and> head \<noteq> replicate (length head) slash
          then rstrip_slash head else head, tail))"

definition os_path_dirname :: "string \<Rightarrow> string" where
  "os_path_dirname p = fst (os_path_split p)"

definition os_path_basename :: "string \<Rightarrow> string" where
  "os_path_basename p = snd (os_path_split p)"

text \<open>
  \<^verbatim>\<open>posixpath.join(a, b)\<close>:
  \<^verbatim>\<open>
    if b.startswith('/'):   path = b
    elif path == '' or path.endswith('/'):   path += b
    else:   path += '/' + b
  \<close>
\<close>

definition os_path_join :: "string \<Rightarrow> string \<Rightarrow> string" where
  "os_path_join a b =
     (if b \<noteq> [] \<and> hd b = slash then b
      else if a = [] \<or> last a = slash then a @ b
      else a @ [slash] @ b)"

text \<open>\<^verbatim>\<open>s[:-4]\<close>: everything but the last four characters, empty when there are fewer.\<close>

definition drop_last4 :: "string \<Rightarrow> string" where
  "drop_last4 s = take (length s - 4) s"

text \<open>\<^verbatim>\<open>'{}'.format(n)\<close> for a non-negative integer: its decimal digits.\<close>

definition digit_char :: "nat \<Rightarrow> char" where
  "digit_char d = char_of (48 + d)"

fun str_nat :: "nat \<Rightarrow> string" where
  "str_nat n = (if n < 10 then [digit_char n] else str_nat (n div 10) @ [digit_char (n mod 10)])"

declare str_nat.simps [simp del]

text \<open>\<^verbatim>\<open>s.strip()\<close> of a Python 2 byte string: space, tab, newline, return, VT and FF
  are removed from both ends.\<close>

definition py_isspace :: "char \<Rightarrow> bool" where
  "py_isspace c = (c \<in> {CHR '' '', CHR 0x09, CHR 0x0A, CHR 0x0D, CHR 0x0B, CHR 0x0C})"

definition py_strip :: "string \<Rightarrow> string" where
  "py_strip s = rev (dropWhile py_isspace (rev (dropWhile py_isspace s)))"

section \<open>The world: file system, processes, terminal\<close>

text \<open>
  The file system holds directories and regular files (no symbolic links), and every
  operation on it is permitted. An entry is named by the list of the names on the way
  from the root to it; the root is the empty list and is always a directory. The
  process has a current directory, which the module never changes.
\<close>

datatype node = Dir | File string

type_synonym filesystem = "string list \<Rightarrow> node option"

datatype event =
    Print string
  | System string
  | Popen string
  | Mkdir string
  | Open_w string
  | Write string string
  | Remove string

record world =
  fs :: filesystem
  cwd :: "string list"
  trace :: "event list"

datatype errno = EEXIST | ENOENT | ENOTDIR | EISDIR

datatype error = OSError errno | IOError errno | IndexError

type_synonym 'a result = "(error + 'a) \<times> world"

definition log_event :: "event \<Rightarrow> world \<Rightarrow> world" where
  "log_event e w = w\<lparr>trace := trace w @ [e]\<rparr>"

definition node_at :: "world \<Rightarrow> string list \<Rightarrow> node option" where
  "node_at w k = (if k = [] then Some Dir else fs w k)"

text \<open>
  Path resolution, as POSIX does it. The path is cut at its slashes; a path that starts
  with a slash is resolved from the root, any other from the current directory. Each
  component is looked up in what has been reached so far, which must be a directory: an
  empty component (from a doubled or trailing slash) and \<^verbatim>\<open>.\<close> stay there, \<^verbatim>\<open>..\<close> goes
  to the parent, a name goes to the entry of that name, which need not exist if the
  name is the last component.
\<close>

fun split_from :: "string \<Rightarrow> string \<Rightarrow> string list" where
  "split_from cur [] = [cur]"
| "split_from cur (c # cs) =
     (if c = slash then cur # split_from [] cs else split_from (cur @ [c]) cs)"

definition split_slash :: "string \<Rightarrow> string list" where
  "split_slash p = split_from [] p"

definition step :: "string list \<Rightarrow> string \<Rightarrow> string list" where
  "step cur c =
     (if c = [] \<or> c = ''.'' then cur else if c = ''..'' then butlast cur else cur @ [c])"

fun walk :: "world \<Rightarrow> string list \<Rightarrow> string list \<Rightarrow> errno + string list" where
  "walk w cur [] = Inr cur"
| "walk w cur (c # cs) =
     (case node_at w cur of
        None \<Rightarrow> Inl ENOENT
      | Some (File x) \<Rightarrow> Inl ENOTDIR
      | Some Dir \<Rightarrow> walk w (step cur c) cs)"

definition resolve :: "world \<Rightarrow> string \<Rightarrow> errno + string list" where
  "resolve w p = walk w (if p \<noteq> [] \<and> hd p = slash then [] else cwd w) (split_slash p)"

text \<open>\<^verbatim>\<open>os.path.exists(p)\<close>: whether \<^verbatim>\<open>stat\<close> succeeds. The empty path never does.\<close>

definition os_path_exists :: "world \<Rightarrow> string \<Rightarrow> bool" where
  "os_path_exists w p =
     (p \<noteq> [] \<and> (case resolve w p of Inl e \<Rightarrow> False | Inr k \<Rightarrow> node_at w k \<noteq> None))"

text \<open>
  \<^verbatim>\<open>os.mkdir(p)\<close>: trailing slashes of the name are ignored; the directory above must
  exist and the path must not.
\<close>

definition mkdir_path :: "string \<Rightarrow> string" where
  "mkdir_path p = (if p = replicate (length p) slash then p else rstrip_slash p)"

definition os_mkdir :: "string \<Rightarrow> world \<Rightarrow> unit result" where
  "os_mkdir p w =
     (if p = [] then (Inl (OSError ENOENT), w)
      else case resolve w (mkdir_path p) of
        Inl e \<Rightarrow> (Inl (OSError e), w)
      | Inr k \<Rightarrow>
          if node_at w k \<noteq> None then (Inl (OSError EEXIST), w)
          else (Inr (), log_event (Mkdir p) (w\<lparr>fs := (fs w)(k \<mapsto> Dir)\<rparr>)))"

text \<open>
  \<^verbatim>\<open>os.makedirs(name)\<close> of Python 2:
  \<^verbatim>\<open>
    head, tail = path.split(name)
    if not tail:
        head, tail = path.split(head)
    if head and tail and not path.exists(head):
        try:
            makedirs(head, mode)
        except OSError, e:
            if e.errno != errno.EEXIST:
                raise
        if tail == curdir:
            return
    mkdir(name, mode)
  \<close>
\<close>

definition makedirs_split :: "string \<Rightarrow> string \<times> string" where
  "makedirs_split name =
     (if snd (os_path_split name) = [] then os_path_split (fst (os_path_split name))
      else os_path_split name)"

definition makedirs_finish :: "string \<Rightarrow> string \<Rightarrow> unit result \<Rightarrow> unit result" where
  "makedirs_finish name tail r =
     (case r of
        (Inl (OSError EEXIST), w') \<Rightarrow> if tail = ''.'' then (Inr (), w') else os_mkdir name w'
      | (Inl e, w') \<Rightarrow> (Inl e, w')
      | (Inr u, w') \<Rightarrow> if tail = ''.'' then (Inr (), w') else os_mkdir name w')"

function os_makedirs :: "string \<Rightarrow> world \<Rightarrow> unit result" where
  "os_makedirs name w =
     (if fst (makedirs_split name) \<noteq> [] \<and> snd (makedirs_split name) \<noteq> []
         \<and> \<not> os_path_exists w (fst (makedirs_split name))
      then makedirs_finish name (snd (makedirs_split name))
             (os_makedirs (fst (makedirs_split name)) w)
      else os_mkdir name w)"
  by pat_completeness auto
termination
proof -
  have strip: "length (rstrip_slash s) \<le> length s" for s
    unfolding rstrip_slash_def using length_dropWhile_le [of "\<lambda>c. c = slash" "rev s"] by simp
  have le: "length (fst (os_path_split p)) \<le> length p" for p
    using strip [of "take (rfind_slash1 p) p"] by (simp add: os_path_split_def Let_def)
  have less: "length (fst (os_path_split p)) < length p" if "snd (os_path_split p) \<noteq> []" for p
  proof -
    from that have "rfind_slash1 p < length p"
      by (simp add: os_path_split_def Let_def)
    with strip [of "take (rfind_slash1 p) p"] show ?thesis
      by (simp add: os_path_split_def Let_def)
  qed
  have shorter: "length (fst (makedirs_split name)) < length name"
    if "snd (makedirs_split name) \<noteq> []" for name
  proof (cases "snd (os_path_split name) = []")
    case True
    with that have "snd (os_path_split (fst (os_path_split name))) \<noteq> []"
      by (simp add: makedirs_split_def)
    then have "length (fst (os_path_split (fst (os_path_split name))))
                 < length (fst (os_path_split name))"
      by (rule less)
    with le [of name] True show ?thesis
      by (simp add: makedirs_split_def)
  next
    case False
    then show ?thesis
      using less [of name] by (simp add: makedirs_split_def)
  qed
  show ?thesis
    by (relation "measure (\<lambda>(name, w). length name)") (auto simp: shorter)
qed

declare os_makedirs.simps [simp del]

text \<open>\<^verbatim>\<open>open(p, 'w')\<close> creates or truncates a regular file in an existing directory.\<close>

definition open_w :: "string \<Rightarrow> world \<Rightarrow> unit result" where
  "open_w p w =
     (if p = [] then (Inl (IOError ENOENT), w)
      else case resolve w p of
        Inl e \<Rightarrow> (Inl (IOError e), w)
      | Inr k \<Rightarrow>
          (case node_at w k of
             Some Dir \<Rightarrow> (Inl (IOError EISDIR), w)
           | _ \<Rightarrow> (Inr (), log_event (Open_w p) (w\<lparr>fs := (fs w)(k \<mapsto> File [])\<rparr>))))"

text \<open>\<^verbatim>\<open>f.write(s)\<close> on the file opened at \<open>p\<close>: appends to its contents.\<close>

definition file_write :: "string \<Rightarrow> string \<Rightarrow> world \<Rightarrow> world" where
  "file_write p s w =
     (case resolve w p of
        Inl e \<Rightarrow> w
      | Inr k \<Rightarrow>
          (case node_at w k of
             Some (File c) \<Rightarrow> log_event (Write p s) (w\<lparr>fs := (fs w)(k \<mapsto> File (c @ s))\<rparr>)
           | _ \<Rightarrow> w))"

text \<open>\<^verbatim>\<open>os.remove(p)\<close> unlinks a regular file.\<close>

definition os_remove :: "string \<Rightarrow> world \<Rightarrow> unit result" where
  "os_remove p w =
     (if p = [] then (Inl (OSError ENOENT), w)
      else case resolve w p of
        Inl e \<Rightarrow> (Inl (OSError e), w)
      | Inr k \<Rightarrow>
          (case node_at w k of
             Some (File c) \<Rightarrow> (Inr (), log_event (Remove p) (w\<lparr>fs := (fs w)(k := None)\<rparr>))
           | Some Dir \<Rightarrow> (Inl (OSError EISDIR), w)
           | None \<Rightarrow> (Inl (OSError ENOENT), w)))"

text \<open>
  The external tools are opaque. For a command line run in a world, the environment
  gives the exit status that \<^verbatim>\<open>os.system\<close> returns, the standard output that
  \<^verbatim>\<open>Popen(...).communicate()\<close> returns, and the file system the process leaves behind.
\<close>

record env =
  tool_status :: "world \<Rightarrow> string \<Rightarrow> int"
  tool_stdout :: "world \<Rightarrow> string \<Rightarrow> string"
  tool_fs :: "world \<Rightarrow> string \<Rightarrow> filesystem"

definition os_system :: "env \<Rightarrow> string \<Rightarrow> world \<Rightarrow> int \<times> world" where
  "os_system env command w =
     (tool_status env w command, log_event (System command) (w\<lparr>fs := tool_fs env w command\<rparr>))"

definition popen_communicate :: "env \<Rightarrow> string \<Rightarrow> world \<Rightarrow> string \<times> world" where
  "popen_communicate env command w =
     (tool_stdout env w command, log_event (Popen command) (w\<lparr>fs := tool_fs env w command\<rparr>))"

text \<open>
  \<^verbatim>\<open>os.system("mkdir {}".format(d))\<close>. When \<open>d\<close> is a single plain shell word, the
  command is the POSIX \<^verbatim>\<open>mkdir\<close> utility without \<^verbatim>\<open>-p\<close>: it makes the one directory and
  exits with 0, or fails with exit code 1 (wait status 256). Any other \<open>d\<close> is left
  to the environment.
\<close>

definition shell_plain_char :: "char \<Rightarrow> bool" where
  "shell_plain_char c =
     (let n = (of_char c :: nat)
      in (48 \<le> n \<and> n \<le> 57) \<or> (65 \<le> n \<and> n \<le> 90) \<or> (97 \<le> n \<and> n \<le> 122)
         \<or> c = slash \<or> c = CHR ''.'' \<or> c = CHR ''_'' \<or> c = CHR ''-'')"

definition shell_plain_word :: "string \<Rightarrow> bool" where
  "shell_plain_word d = (d \<noteq> [] \<and> hd d \<noteq> CHR ''-'' \<and> list_all shell_plain_char d)"

definition os_system_mkdir :: "env \<Rightarrow> string \<Rightarrow> world \<Rightarrow> int \<times> world" where
  "os_system_mkdir env d w =
     (if shell_plain_word d
      then (case os_mkdir d (log_event (System (''mkdir '' @ d)) w) of
              (Inl e, w') \<Rightarrow> (256, w')
            | (Inr u, w') \<Rightarrow> (0, w'))
      else os_system env (''mkdir '' @ d) w)"

section \<open>The module \<^verbatim>\<open>cassis_process.py\<close>\<close>

definition temp_dir :: string where
  "temp_dir = ''cassis_temp''"

text \<open>The loop \<^verbatim>\<open>for file in files: f.write('{}\n'.format(file))\<close>.\<close>

fun write_files :: "string \<Rightarrow> string list \<Rightarrow> world \<Rightarrow> world" where
  "write_files list_filename [] w = w"
| "write_files list_filename (file # files) w =
     write_files list_filename files (file_write list_filename (file @ [newline]) w)"

definition make_file_list :: "string list \<Rightarrow> string \<Rightarrow> world \<Rightarrow> unit result" where
  "make_file_list files list_filename w =
     (let list_dir = os_path_dirname list_filename
      in case (if list_dir \<noteq> [] \<and> \<not> os_path_exists w list_dir
               then os_makedirs list_dir w else (Inr (), w)) of
           (Inl e, w1) \<Rightarrow> (Inl e, w1)
         | (Inr u, w1) \<Rightarrow>
             (case open_w list_filename w1 of
                (Inl e, w2) \<Rightarrow> (Inl e, w2)
              | (Inr u, w2) \<Rightarrow> (Inr (), write_files list_filename files w2)))"

definition ingest_framelet :: "env \<Rightarrow> string \<Rightarrow> string \<Rightarrow> world \<Rightarrow> string result" where
  "ingest_framelet env filename output_dir w =
     (let basename = os_path_basename filename;
          output_filename = drop_last4 basename @ ''.cub'';
          w1 = log_event (Print output_filename) w;
          w2 = (if \<not> os_path_exists w1 output_dir
                then snd (os_system_mkdir env output_dir w1) else w1);
          output_filename = os_path_join output_dir output_filename;
          ingest_command = ''tgocassis2isis from='' @ filename @ '' to='' @ output_filename;
          spiceinit_command =
            ''spiceinit ckpredict=true spkpredict=true from='' @ output_filename;
          w3 = snd (os_system env ingest_command w2);
          w4 = snd (os_system env spiceinit_command w3)
      in (Inr output_filename, w4))"

fun ingest_loop ::
  "env \<Rightarrow> string list \<Rightarrow> string \<Rightarrow> string list \<Rightarrow> world \<Rightarrow> string list result" where
  "ingest_loop env [] output_dir output_filenames w = (Inr output_filenames, w)"
| "ingest_loop env (filename # filenames) output_dir output_filenames w =
     (case ingest_framelet env filename output_dir w of
        (Inl e, w') \<Rightarrow> (Inl e, w')
      | (Inr output_filename, w') \<Rightarrow>
          ingest_loop env filenames output_dir (output_filenames @ [output_filename]) w')"

definition ingest_observation ::
  "env \<Rightarrow> string list \<Rightarrow> string \<Rightarrow> world \<Rightarrow> string list result" where
  "ingest_observation env filenames output_dir w =
     (case (if \<not> os_path_exists w output_dir then os_makedirs output_dir w else (Inr (), w)) of
        (Inl e, w1) \<Rightarrow> (Inl e, w1)
      | (Inr u, w1) \<Rightarrow> ingest_loop env filenames output_dir [] w1)"

text \<open>The command line that \<^verbatim>\<open>match_framelets\<close> builds.\<close>

definition match_framelets_command ::
  "string \<Rightarrow> string \<Rightarrow> string \<Rightarrow> string \<Rightarrow> string \<Rightarrow> string \<Rightarrow> string" where
  "match_framelets_command base train output_network network_id point_id log =
     (let command = ''findfeatures algorithm=sift/sift'';
          command = command @ '' match='' @ base;
          command = command @ '' from='' @ train;
          command = command @ '' onet='' @ output_network;
          command = command @ '' networkID='' @ network_id;
          command = command @ '' pointID='' @ [dquote] @ point_id @ [dquote]
      in if log \<noteq> [] then command @ '' debug=true debuglog='' @ [dquote] @ log @ [dquote]
         else command)"

definition match_framelets ::
  "env \<Rightarrow> string \<Rightarrow> string \<Rightarrow> string \<Rightarrow> string \<Rightarrow> string \<Rightarrow> string \<Rightarrow> world \<Rightarrow> int result" where
  "match_framelets env base train output_network network_id point_id log w =
     (case os_system env
             (match_framelets_command base train output_network network_id point_id log) w of
        (status, w') \<Rightarrow> (Inr status, w'))"

text \<open>
  The body of the loop of \<^verbatim>\<open>generate_filter_control\<close> over
  \<^verbatim>\<open>range(0, len(images) - 1)\<close>. The loop ends in an exception, in the early
  \<^verbatim>\<open>return status\<close> (\<open>Inr (Inl status)\<close>) or with the list \<^verbatim>\<open>framelet_nets\<close>
  (\<open>Inr (Inr framelet_nets)\<close>).
\<close>

definition network_id_of :: "string \<Rightarrow> nat \<Rightarrow> string" where
  "network_id_of filter_name index = filter_name @ ''_'' @ str_nat index @ ''_'' @ str_nat (index + 1)"

fun match_loop ::
  "env \<Rightarrow> string list \<Rightarrow> string \<Rightarrow> string \<Rightarrow> string \<Rightarrow> nat list \<Rightarrow> string list \<Rightarrow> world
     \<Rightarrow> (int + string list) result" where
  "match_loop env images network_dir filter_name log_dir [] framelet_nets w =
     (Inr (Inr framelet_nets), w)"
| "match_loop env images network_dir filter_name log_dir (index # indices) framelet_nets w =
     (if length images \<le> index + 1 then (Inl IndexError, w)
      else
        let base = images ! index;
            train = images ! (index + 1);
            network_id = network_id_of filter_name index;
            network = os_path_join network_dir (network_id @ ''.net'');
            point_id = network_id @ ''????'';
            log = (if log_dir \<noteq> [] then os_path_join log_dir (network_id @ ''.log'') else [])
        in case match_framelets env base train network network_id point_id log w of
             (Inl e, w') \<Rightarrow> (Inl e, w')
           | (Inr status, w') \<Rightarrow>
               if status \<noteq> 0
               then (Inr (Inl status),
                     log_event (Print (''Failed to match framelets ['' @ base @ ''] and [''
                                       @ train @ '']'')) w')
               else match_loop env images network_dir filter_name log_dir indices
                      (framelet_nets @ [network]) w')"

text \<open>Lines 165 to 169: \<^verbatim>\<open>make sure all of the directories exist\<close>.\<close>

definition make_control_dirs :: "string \<Rightarrow> string \<Rightarrow> world \<Rightarrow> unit result" where
  "make_control_dirs output_network log_dir w =
     (let network_dir = os_path_dirname output_network
      in case (if network_dir \<noteq> [] \<and> \<not> os_path_exists w network_dir
               then os_makedirs network_dir w else (Inr (), w)) of
           (Inl e, w1) \<Rightarrow> (Inl e, w1)
         | (Inr u, w1) \<Rightarrow>
             (if log_dir \<noteq> [] \<and> \<not> os_path_exists w1 log_dir
              then os_makedirs log_dir w1 else (Inr (), w1)))"

text \<open>Lines 190 to 198: \<^verbatim>\<open>combine the individual networks\<close>.\<close>

definition merge_command :: "string \<Rightarrow> string \<Rightarrow> string \<Rightarrow> string" where
  "merge_command framelet_nets_file output_network filter_name =
     (let command = ''cnetmerge clist='' @ framelet_nets_file;
          command = command @ '' onet='' @ output_network;
          command = command @ '' network='' @ filter_name;
          command = command @ '' description='' @ [dquote] @ ''network for the '' @ filter_name
                      @ '' filter'' @ [dquote]
      in command)"

definition merge_networks ::
  "env \<Rightarrow> string list \<Rightarrow> string \<Rightarrow> string \<Rightarrow> world \<Rightarrow> int result" where
  "merge_networks env framelet_nets output_network filter_name w =
     (let framelet_nets_file = os_path_join temp_dir ''nets.lis''
      in case make_file_list framelet_nets framelet_nets_file w of
           (Inl e, w1) \<Rightarrow> (Inl e, w1)
         | (Inr u, w1) \<Rightarrow>
             (case os_system env (merge_command framelet_nets_file output_network filter_name) w1 of
                (status, w2) \<Rightarrow>
                  (case os_remove framelet_nets_file w2 of
                     (Inl e, w3) \<Rightarrow> (Inl e, w3)
                   | (Inr u, w3) \<Rightarrow> (Inr status, w3))))"

definition generate_filter_control ::
  "env \<Rightarrow> string list \<Rightarrow> string \<Rightarrow> string \<Rightarrow> string \<Rightarrow> world \<Rightarrow> int result" where
  "generate_filter_control env images output_network filter_name log_dir w =
     (case make_control_dirs output_network log_dir w of
        (Inl e, w1) \<Rightarrow> (Inl e, w1)
      | (Inr u, w1) \<Rightarrow>
          (case match_loop env images (os_path_dirname output_network) filter_name log_dir
                  [0 ..< length images - 1] [] w1 of
             (Inl e, w2) \<Rightarrow> (Inl e, w2)
           | (Inr (Inl status), w2) \<Rightarrow> (Inr status, w2)
           | (Inr (Inr framelet_nets), w2) \<Rightarrow>
               merge_networks env framelet_nets output_network filter_name w2))"

definition make_map_file :: "env \<Rightarrow> string list \<Rightarrow> string \<Rightarrow> world \<Rightarrow> unit result" where
  "make_map_file env images output_file w =
     (let image_list_file = os_path_join temp_dir ''mosrange.lis''
      in case make_file_list images image_list_file w of
           (Inl e, w1) \<Rightarrow> (Inl e, w1)
         | (Inr u, w1) \<Rightarrow>
             (let mosrange_command =
                    ''mosrange fromlist='' @ image_list_file @ '' to='' @ output_file;
                  w2 = snd (os_system env mosrange_command w1)
              in os_remove image_list_file w2))"

definition project_framelet ::
  "env \<Rightarrow> string \<Rightarrow> string \<Rightarrow> string \<Rightarrow> bool \<Rightarrow> world \<Rightarrow> unit result" where
  "project_framelet env image_file map_file output_file trim w =
     (let cam2map_command = ''cam2map from='' @ image_file @ '' to='' @ output_file
                            @ '' map='' @ map_file @ '' pixres=map''
      in (Inr (), snd (os_system env cam2map_command w)))"

fun project_loop ::
  "env \<Rightarrow> string list \<Rightarrow> string \<Rightarrow> string \<Rightarrow> bool \<Rightarrow> string list \<Rightarrow> world
     \<Rightarrow> string list result" where
  "project_loop env [] output_dir map_file trim output_files w = (Inr output_files, w)"
| "project_loop env (image_name # filenames) output_dir map_file trim output_files w =
     (let basename = os_path_basename image_name;
          output_file = drop_last4 basename @ ''_proj.cub'';
          full_output_file = os_path_join output_dir output_file
      in case project_framelet env image_name map_file full_output_file trim w of
           (Inl e, w') \<Rightarrow> (Inl e, w')
         | (Inr u, w') \<Rightarrow>
             project_loop env filenames output_dir map_file trim
               (output_files @ [full_output_file]) w')"

definition project_observation ::
  "env \<Rightarrow> string list \<Rightarrow> string \<Rightarrow> string \<Rightarrow> bool \<Rightarrow> world \<Rightarrow> string list result" where
  "project_observation env filenames output_dir map_file trim w =
     (case (if \<not> os_path_exists w output_dir then os_makedirs output_dir w else (Inr (), w)) of
        (Inl e, w1) \<Rightarrow> (Inl e, w1)
      | (Inr u, w1) \<Rightarrow> project_loop env filenames output_dir map_file trim [] w1)"

text \<open>The four \<^verbatim>\<open>getkey\<close> command lines of \<^verbatim>\<open>mosaic_filter\<close>.\<close>

definition getkey_command :: "string \<Rightarrow> string \<Rightarrow> string" where
  "getkey_command map_file keyword =
     ''getkey from='' @ map_file @ '' keyword='' @ keyword @ '' grpname=Mapping''"

definition mosaic_filter :: "env \<Rightarrow> string list \<Rightarrow> string \<Rightarrow> string \<Rightarrow> world \<Rightarrow> unit result" where
  "mosaic_filter env filenames output_file map_file w =
     (let image_list_file = os_path_join temp_dir ''framelets.lis''
      in case make_file_list filenames image_list_file w of
           (Inl e, w1) \<Rightarrow> (Inl e, w1)
         | (Inr u, w1) \<Rightarrow>
             (let command = ''automos fromlist='' @ image_list_file @ '' mosaic='' @ output_file
              in if map_file \<noteq> [] then
                   (if \<not> os_path_exists w1 map_file then
                      os_remove image_list_file
                        (log_event (Print (''Map file ['' @ map_file @ ''] does not exist'')) w1)
                    else
                      (case popen_communicate env
                              (getkey_command map_file ''MinimumLatitude'') w1 of
                         (min_lat, w2) \<Rightarrow>
                      (case popen_communicate env
                              (getkey_command map_file ''MaximumLatitude'') w2 of
                         (max_lat, w3) \<Rightarrow>
                      (case popen_communicate env
                              (getkey_command map_file ''MinimumLongitude'') w3 of
                         (min_lon, w4) \<Rightarrow>
                      (case popen_communicate env
                              (getkey_command map_file ''MaximumLongitude'') w4 of
                         (max_lon, w5) \<Rightarrow>
                           (let command = command @ '' grange=user minlat='' @ py_strip min_lat
                                            @ '' maxlat='' @ py_strip max_lat
                                            @ '' minlon='' @ py_strip min_lon
                                            @ '' maxlon='' @ py_strip max_lon
                            in os_remove image_list_file
                                 (snd (os_system env command w5))))))))
                 else os_remove image_list_file (snd (os_system env command w1))))"

definition stack_mosaics :: "env \<Rightarrow> string list \<Rightarrow> string \<Rightarrow> world \<Rightarrow> unit result" where
  "stack_mosaics env mosaics output_file w =
     (let mosaic_list_file = os_path_join temp_dir ''mosaics.lis''
      in case make_file_list mosaics mosaic_list_file w of
           (Inl e, w1) \<Rightarrow> (Inl e, w1)
         | (Inr u, w1) \<Rightarrow>
             (let command = ''cubeit fromlist='' @ mosaic_list_file @ '' to='' @ output_file
              in os_remove mosaic_list_file (snd (os_system env command w1))))"

definition export_image :: "env \<Rightarrow> string \<Rightarrow> string \<Rightarrow> world \<Rightarrow> int result" where
  "export_image env image_name output_file w =
     (let command = ''tgocassisrdrgen from='' @ image_name @ '' to='' @ output_file
      in case os_system env command w of (status, w') \<Rightarrow> (Inr status, w'))"

definition export_mosaic :: "env \<Rightarrow> string \<Rightarrow> string \<Rightarrow> world \<Rightarrow> int result" where
  "export_mosaic env mosaic output_file w =
     (let command = ''isis2pds from='' @ mosaic @ '' to='' @ output_file @ '' pdsversion=PDS4''
      in case os_system env command w of (status, w') \<Rightarrow> (Inr status, w'))"

section \<open>Concrete worlds for evaluation\<close>

text \<open>An empty working directory \<^verbatim>\<open>/work\<close>; the same with a map file \<^verbatim>\<open>eq.map\<close> in it;
  the same with a directory \<^verbatim>\<open>out\<close> in it; and tools that leave the file system alone, exit with a fixed status and print a
  fixed output.\<close>

definition empty_world :: world where
  "empty_world =
     \<lparr>fs = (\<lambda>k. if k = [''work''] then Some Dir else None), cwd = [''work''], trace = []\<rparr>"

definition map_world :: world where
  "map_world =
     \<lparr>fs = (\<lambda>k. if k = [''work''] then Some Dir
                else if k = [''work'', ''eq.map''] then Some (File []) else None),
      cwd = [''work''], trace = []\<rparr>"


definition const_env :: "int \<Rightarrow> string \<Rightarrow> env" where
  "const_env status out =
     \<lparr>tool_status = (\<lambda>w c. status), tool_stdout = (\<lambda>w c. out), tool_fs = (\<lambda>w c. fs w)\<rparr>"

text \<open>Tools of which \<^verbatim>\<open>cnetmerge\<close> exits with status 5 and all others with 0.\<close>

definition merge_fail_env :: env where
  "merge_fail_env =
     \<lparr>tool_status = (\<lambda>w c. if take 9 c = ''cnetmerge'' then 5 else 0),
      tool_stdout = (\<lambda>w c. []), tool_fs = (\<lambda>w c. fs w)\<rparr>"

section \<open>Notions used to state the properties\<close>

text \<open>The world \<open>w'\<close> is \<open>w\<close> after the calls \<^verbatim>\<open>os.mkdir(d)\<close> for the paths \<open>d\<close> of
  \<open>dirs\<close>, one after the other, succeeded, and nothing else happened: entries that
  were missing have become directories, and no other entry changed.\<close>

definition made_dirs :: "world \<Rightarrow> string list \<Rightarrow> world \<Rightarrow> bool" where
  "made_dirs w dirs w' =
     (trace w' = trace w @ map Mkdir dirs \<and> cwd w' = cwd w
      \<and> (\<forall>k. fs w' k = fs w k \<or> (fs w k = None \<and> fs w' k = Some Dir)))"

text \<open>In a well-formed file system the current directory is a directory and every
  entry lies in a directory.\<close>

definition wf_fs :: "world \<Rightarrow> bool" where
  "wf_fs w =
     (node_at w (cwd w) = Some Dir
      \<and> (\<forall>k. k \<noteq> [] \<and> fs w k \<noteq> None \<longrightarrow> node_at w (butlast k) = Some Dir))"

text \<open>What reading the file at a path gives (\<open>None\<close> when it cannot be read), and
  \<^verbatim>\<open>os.path.isdir\<close>.\<close>

definition read_file :: "world \<Rightarrow> string \<Rightarrow> string option" where
  "read_file w p =
     (if p = [] then None
      else case resolve w p of
        Inl e \<Rightarrow> None
      | Inr k \<Rightarrow> (case node_at w k of Some (File c) \<Rightarrow> Some c | _ \<Rightarrow> None))"

definition os_path_isdir :: "world \<Rightarrow> string \<Rightarrow> bool" where
  "os_path_isdir w p =
     (p \<noteq> [] \<and> (case resolve w p of Inl e \<Rightarrow> False | Inr k \<Rightarrow> node_at w k = Some Dir))"

text \<open>
  Paths in normal form: names that are not empty, hold no slash and are neither
  \<^verbatim>\<open>.\<close> nor \<^verbatim>\<open>..\<close>, joined by single slashes, after a leading slash if the path is
  absolute. The entry such a path names lies below the root or the current directory.
\<close>

definition proper_name :: "string \<Rightarrow> bool" where
  "proper_name c = (c \<noteq> [] \<and> slash \<notin> set c \<and> c \<noteq> ''.'' \<and> c \<noteq> ''..'')"

fun join_names :: "string list \<Rightarrow> string" where
  "join_names [] = []"
| "join_names [c] = c"
| "join_names (c # d # cs) = c @ [slash] @ join_names (d # cs)"

definition path_of :: "bool \<Rightarrow> string list \<Rightarrow> string" where
  "path_of absolute cs = (if absolute then [slash] else []) @ join_names cs"

definition start_of :: "world \<Rightarrow> bool \<Rightarrow> string list" where
  "start_of w absolute = (if absolute then [] else cwd w)"

text \<open>The lines of a text file: the runs of characters that end at a newline (and a
  last, unterminated one if there is any).\<close>

fun lines_from :: "string \<Rightarrow> string \<Rightarrow> string list" where
  "lines_from cur [] = (if cur = [] then [] else [cur])"
| "lines_from cur (c # cs) =
     (if c = newline then cur # lines_from [] cs else lines_from (cur @ [c]) cs)"

definition file_lines :: "string \<Rightarrow> string list" where
  "file_lines s = lines_from [] s"

text \<open>The text of a list file: each path followed by a newline.\<close>

definition list_text :: "string list \<Rightarrow> string" where
  "list_text files = concat (map (\<lambda>file. file @ [newline]) files)"

text \<open>The command line of the iteration \<open>index\<close> of the matching loop, and the network
  file it writes.\<close>

definition pair_network :: "string \<Rightarrow> string \<Rightarrow> nat \<Rightarrow> string" where
  "pair_network network_dir filter_name index =
     os_path_join network_dir (network_id_of filter_name index @ ''.net'')"

definition pair_command :: "string list \<Rightarrow> string \<Rightarrow> string \<Rightarrow> string \<Rightarrow> nat \<Rightarrow> string" where
  "pair_command images network_dir filter_name log_dir index =
     match_framelets_command (images ! index) (images ! (index + 1))
       (pair_network network_dir filter_name index)
       (network_id_of filter_name index)
       (network_id_of filter_name index @ ''????'')
       (if log_dir \<noteq> [] then os_path_join log_dir (network_id_of filter_name index @ ''.log'')
        else [])"

text \<open>Running a list of commands with \<^verbatim>\<open>os.system\<close>, one after the other; and whether
  each of them exits with status 0 when they are run so.\<close>

fun run_commands :: "env \<Rightarrow> string list \<Rightarrow> world \<Rightarrow> world" where
  "run_commands env [] w = w"
| "run_commands env (c # cs) w = run_commands env cs (snd (os_system env c w))"

fun all_succeed :: "env \<Rightarrow> string list \<Rightarrow> world \<Rightarrow> bool" where
  "all_succeed env [] w = True"
| "all_succeed env (c # cs) w =
     (tool_status env w c = 0 \<and> all_succeed env cs (snd (os_system env c w)))"


definition cam2map_command :: "string \<Rightarrow> string \<Rightarrow> string \<Rightarrow> string" where
  "cam2map_command image_file map_file output_file =
     ''cam2map from='' @ image_file @ '' to='' @ output_file @ '' map='' @ map_file
     @ '' pixres=map''"

section \<open>Basic facts about the primitives\<close>

lemma trace_os_system: "trace (snd (os_system env command w)) = trace w @ [System command]"
  by (simp add: os_system_def log_event_def)

lemma fst_os_system: "fst (os_system env command w) = tool_status env w command"
  by (simp add: os_system_def)

lemma trace_popen_communicate:
  "trace (snd (popen_communicate env command w)) = trace w @ [Popen command]"
  by (simp add: popen_communicate_def log_event_def)

lemma drop_last4_append: "length ext = 4 \<Longrightarrow> drop_last4 (stem @ ext) = stem"
  by (simp add: drop_last4_def)

lemma node_at_log_event [simp]: "node_at (log_event e w) k = node_at w k"
  by (simp add: node_at_def log_event_def)

lemma cwd_log_event [simp]: "cwd (log_event e w) = cwd w"
  by (simp add: log_event_def)

lemma fs_log_event [simp]: "fs (log_event e w) = fs w"
  by (simp add: log_event_def)

lemma trace_log_event [simp]: "trace (log_event e w) = trace w @ [e]"
  by (simp add: log_event_def)

lemma walk_log_event [simp]: "walk (log_event e w) cur cs = walk w cur cs"
  by (induction cs arbitrary: cur) (simp_all split: option.splits node.splits)

lemma resolve_log_event [simp]: "resolve (log_event e w) p = resolve w p"
  by (simp add: resolve_def)

lemma walk_mono:
  assumes "\<forall>k. node_at w k = Some Dir \<longrightarrow> node_at w' k = Some Dir"
    and "walk w cur cs = Inr k"
  shows "walk w' cur cs = Inr k"
  using assms(2)
proof (induction cs arbitrary: cur)
  case Nil
  then show ?case by simp
next
  case (Cons c cs)
  from Cons.prems have d: "node_at w cur = Some Dir"
    by (auto split: option.splits node.splits)
  with assms(1) have d': "node_at w' cur = Some Dir" by simp
  from Cons.prems d have "walk w (step cur c) cs = Inr k" by simp
  from Cons.IH [OF this] d' show ?case by simp
qed

lemma resolve_mono:
  assumes "\<forall>k. node_at w k = Some Dir \<longrightarrow> node_at w' k = Some Dir" and "cwd w' = cwd w"
    and "resolve w p = Inr k"
  shows "resolve w' p = Inr k"
  using walk_mono [OF assms(1)] assms(2,3) by (auto simp: resolve_def split: if_splits)

lemma split_from_nonempty: "split_from cur p \<noteq> []"
  by (induction p arbitrary: cur) simp_all

lemma walk_parent:
  assumes "wf_fs w" and "walk w cur cs = Inr k" and "cs \<noteq> []"
  shows "node_at w k = Some Dir \<or> (k \<noteq> [] \<and> node_at w (butlast k) = Some Dir)"
  using assms(2,3)
proof (induction cs arbitrary: cur)
  case Nil
  then show ?case by simp
next
  case (Cons c cs)
  from Cons.prems have d: "node_at w cur = Some Dir"
    by (auto split: option.splits node.splits)
  with Cons.prems have r: "walk w (step cur c) cs = Inr k" by simp
  show ?case
  proof (cases "cs = []")
    case False
    with Cons.IH [OF r] show ?thesis by simp
  next
    case True
    with r have k: "k = step cur c" by simp
    have "node_at w (butlast cur) = Some Dir"
    proof (cases "cur = []")
      case True
      then show ?thesis by (simp add: node_at_def)
    next
      case False
      with d have "fs w cur \<noteq> None" by (simp add: node_at_def)
      with False assms(1) show ?thesis by (simp add: wf_fs_def)
    qed
    with d k show ?thesis by (auto simp: step_def)
  qed
qed

lemma resolve_parent:
  assumes "wf_fs w" and "resolve w p = Inr k" and "node_at w k \<noteq> Some Dir"
  shows "k \<noteq> [] \<and> node_at w (butlast k) = Some Dir"
  using walk_parent [OF assms(1), of _ "split_slash p" k] assms(2,3)
    split_from_nonempty [of "[]" p]
  by (auto simp: resolve_def split_slash_def)

section \<open>Making directories\<close>

lemma made_dirs_refl: "made_dirs w [] w"
  by (simp add: made_dirs_def)

lemma made_dirs_trans:
  assumes "made_dirs w ds1 w1" and "made_dirs w1 ds2 w2"
  shows "made_dirs w (ds1 @ ds2) w2"
  using assms unfolding made_dirs_def
  by (auto; metis option.distinct(1))

lemma made_dirs_os_mkdir:
  "made_dirs w (if fst (os_mkdir p w) = Inr () then [p] else []) (snd (os_mkdir p w))"
  by (auto simp: os_mkdir_def made_dirs_def log_event_def node_at_def
      split: sum.splits if_splits)

lemma made_dirs_finish:
  assumes "made_dirs w ds (snd r)"
  shows "\<exists>ds'. made_dirs w ds' (snd (makedirs_finish name tail r))"
proof -
  have m: "\<exists>ds'. made_dirs w ds' (snd (os_mkdir name (snd r)))"
    using made_dirs_trans [OF assms made_dirs_os_mkdir [of "snd r" name]] by blast
  show ?thesis
    using assms m
    by (cases r) (auto simp: makedirs_finish_def split: sum.splits error.splits errno.splits)
qed

lemma made_dirs_os_makedirs: "\<exists>ds. made_dirs w ds (snd (os_makedirs name w))"
proof (induction name w rule: os_makedirs.induct)
  case (1 name w)
  show ?case
  proof (cases "fst (makedirs_split name) \<noteq> [] \<and> snd (makedirs_split name) \<noteq> []
         \<and> \<not> os_path_exists w (fst (makedirs_split name))")
    case True
    with 1 obtain ds where "made_dirs w ds (snd (os_makedirs (fst (makedirs_split name)) w))"
      by blast
    from made_dirs_finish [OF this] True show ?thesis
      by (subst os_makedirs.simps) simp
  next
    case False
    then show ?thesis
      using made_dirs_os_mkdir [of w name]
      by (subst os_makedirs.simps) auto
  qed
qed

lemma made_dirs_node:
  assumes "made_dirs w ds w'"
  shows "node_at w' k = node_at w k \<or> (node_at w k = None \<and> node_at w' k = Some Dir)"
  using assms by (auto simp: made_dirs_def node_at_def)

lemma made_dirs_resolve:
  assumes "made_dirs w ds w'" and "resolve w p = Inr k"
  shows "resolve w' p = Inr k"
proof -
  have "\<forall>k. node_at w k = Some Dir \<longrightarrow> node_at w' k = Some Dir"
    using made_dirs_node [OF assms(1)] by (metis option.distinct(1))
  from resolve_mono [OF this _ assms(2)] assms(1) show ?thesis
    by (simp add: made_dirs_def)
qed

lemma wf_fs_os_mkdir:
  assumes "wf_fs w"
  shows "wf_fs (snd (os_mkdir p w))"
proof (cases "fst (os_mkdir p w) = Inr ()")
  case False
  then have "snd (os_mkdir p w) = w"
    by (auto simp: os_mkdir_def split: sum.splits if_splits)
  with assms show ?thesis by simp
next
  case True
  then obtain k where r: "resolve w (mkdir_path p) = Inr k" and n: "node_at w k = None"
    and w': "snd (os_mkdir p w) = log_event (Mkdir p) (w\<lparr>fs := (fs w)(k \<mapsto> Dir)\<rparr>)"
    by (auto simp: os_mkdir_def split: sum.splits if_splits)
  from resolve_parent [OF assms r] n have k: "k \<noteq> []" and par: "node_at w (butlast k) = Some Dir"
    by simp_all
  from assms k par show ?thesis
    unfolding w' by (auto simp: wf_fs_def node_at_def log_event_def)
qed

lemma wf_fs_finish:
  assumes "wf_fs (snd r)"
  shows "wf_fs (snd (makedirs_finish name tail r))"
  using assms wf_fs_os_mkdir [of "snd r" name]
  by (cases r) (auto simp: makedirs_finish_def split: sum.splits error.splits errno.splits)

lemma wf_fs_os_makedirs: "wf_fs w \<Longrightarrow> wf_fs (snd (os_makedirs name w))"
proof (induction name w rule: os_makedirs.induct)
  case (1 name w)
  show ?case
  proof (cases "fst (makedirs_split name) \<noteq> [] \<and> snd (makedirs_split name) \<noteq> []
         \<and> \<not> os_path_exists w (fst (makedirs_split name))")
    case True
    with 1 have "wf_fs (snd (os_makedirs (fst (makedirs_split name)) w))"
      by blast
    from wf_fs_finish [OF this] True show ?thesis
      by (subst os_makedirs.simps) simp
  next
    case False
    then show ?thesis
      using wf_fs_os_mkdir [OF "1.prems", of name]
      by (subst os_makedirs.simps) auto
  qed
qed

section \<open>List files\<close>

lemma open_w_Inr:
  assumes "open_w p w = (Inr u, w')"
  shows "\<exists>k. resolve w p = Inr k \<and> node_at w k \<noteq> Some Dir \<and> k \<noteq> []
           \<and> fs w' = (fs w)(k \<mapsto> File []) \<and> cwd w' = cwd w
           \<and> trace w' = trace w @ [Open_w p] \<and> p \<noteq> []"
proof -
  from assms have p: "p \<noteq> []"
    by (auto simp: open_w_def)
  with assms obtain k where r: "resolve w p = Inr k"
    by (cases "resolve w p") (auto simp: open_w_def)
  from assms p r have nd: "node_at w k \<noteq> Some Dir"
    by (auto simp: open_w_def)
  then have k: "k \<noteq> []" by (auto simp: node_at_def)
  from assms p r nd have "w' = log_event (Open_w p) (w\<lparr>fs := (fs w)(k \<mapsto> File [])\<rparr>)"
    by (cases "node_at w k") (auto simp: open_w_def split: node.splits)
  with p r nd k show ?thesis by simp
qed

lemma resolve_update_file:
  assumes "resolve w p = Inr k" and "node_at w j \<noteq> Some Dir"
  shows "resolve (w\<lparr>fs := (fs w)(j \<mapsto> File c)\<rparr>) p = Inr k"
proof (rule resolve_mono [OF _ _ assms(1)])
  show "\<forall>k. node_at w k = Some Dir \<longrightarrow> node_at (w\<lparr>fs := (fs w)(j \<mapsto> File c)\<rparr>) k = Some Dir"
    using assms(2) by (auto simp: node_at_def)
qed simp

lemma file_write_file:
  assumes "resolve w p = Inr k" and "fs w k = Some (File c)" and "k \<noteq> []"
  shows "file_write p s w = log_event (Write p s) (w\<lparr>fs := (fs w)(k \<mapsto> File (c @ s))\<rparr>)"
  using assms by (simp add: file_write_def node_at_def)

lemma write_files_fs:
  assumes "resolve w p = Inr k" and "fs w k = Some (File c)" and "k \<noteq> []"
  shows "fs (write_files p files w) = (fs w)(k \<mapsto> File (c @ list_text files))
     \<and> trace (write_files p files w) = trace w @ map (\<lambda>x. Write p (x @ [newline])) files
     \<and> cwd (write_files p files w) = cwd w"
  using assms
proof (induction files arbitrary: w c)
  case Nil
  then show ?case by (auto simp: list_text_def)
next
  case (Cons x files)
  let ?w = "file_write p (x @ [newline]) w"
  from file_write_file [OF Cons.prems]
  have e: "?w = log_event (Write p (x @ [newline])) (w\<lparr>fs := (fs w)(k \<mapsto> File (c @ x @ [newline]))\<rparr>)" .
  from Cons.prems have nd: "node_at w k \<noteq> Some Dir" by (simp add: node_at_def)
  from resolve_update_file [OF Cons.prems(1) nd] have r: "resolve ?w p = Inr k"
    by (simp add: e)
  have f: "fs ?w k = Some (File (c @ x @ [newline]))" by (simp add: e)
  from Cons.IH [OF r f Cons.prems(3)] show ?case
    by (auto simp: e list_text_def fun_eq_iff)
qed

lemma lines_from_line:
  "newline \<notin> set x \<Longrightarrow> lines_from cur (x @ newline # rest) = (cur @ x) # lines_from [] rest"
  by (induction x arbitrary: cur) auto

lemma file_lines_list_text:
  "\<forall>x\<in>set files. newline \<notin> set x \<Longrightarrow> file_lines (list_text files) = files"
  unfolding file_lines_def list_text_def
  by (induction files) (simp_all add: lines_from_line)

lemma make_file_list_Inr:
  assumes "make_file_list files p w = (Inr u, w')"
  shows "\<exists>ds w1 k. made_dirs w ds w1 \<and> (wf_fs w \<longrightarrow> wf_fs w1)
           \<and> resolve w1 p = Inr k \<and> node_at w1 k \<noteq> Some Dir \<and> k \<noteq> [] \<and> p \<noteq> []
           \<and> fs w' = (fs w1)(k \<mapsto> File (list_text files)) \<and> cwd w' = cwd w1
           \<and> trace w' = trace w1 @ Open_w p # map (\<lambda>x. Write p (x @ [newline])) files"
proof -
  define w1 where "w1 = (if os_path_dirname p \<noteq> [] \<and> \<not> os_path_exists w (os_path_dirname p)
                         then snd (os_makedirs (os_path_dirname p) w) else w)"
  have md: "\<exists>ds. made_dirs w ds w1"
    using made_dirs_os_makedirs [of w "os_path_dirname p"] made_dirs_refl [of w]
    by (auto simp: w1_def)
  have wf: "wf_fs w \<longrightarrow> wf_fs w1"
    using wf_fs_os_makedirs [of w "os_path_dirname p"] by (simp add: w1_def)
  from assms obtain w2 where o: "open_w p w1 = (Inr (), w2)"
    and w': "w' = write_files p files w2"
    by (auto simp: make_file_list_def w1_def Let_def split: if_splits prod.splits sum.splits)
  from open_w_Inr [OF o] obtain k where r: "resolve w1 p = Inr k"
    and nd: "node_at w1 k \<noteq> Some Dir" and k: "k \<noteq> []" and p: "p \<noteq> []"
    and f2: "fs w2 = (fs w1)(k \<mapsto> File [])" and c2: "cwd w2 = cwd w1"
    and t2: "trace w2 = trace w1 @ [Open_w p]"
    by blast
  have w2: "w2 = log_event (Open_w p) (w1\<lparr>fs := (fs w1)(k \<mapsto> File [])\<rparr>)"
    using f2 c2 t2 by (simp add: log_event_def)
  from resolve_update_file [OF r nd] have r2: "resolve w2 p = Inr k"
    by (simp add: w2)
  from f2 have "fs w2 k = Some (File [])" by simp
  from write_files_fs [OF r2 this k, of files] f2 c2 t2 w'
  have "fs w' = (fs w1)(k \<mapsto> File (list_text files))" and "cwd w' = cwd w1"
    and "trace w' = trace w1 @ Open_w p # map (\<lambda>x. Write p (x @ [newline])) files"
    by simp_all
  with md wf r nd k p show ?thesis by blast
qed

lemma make_file_list_file:
  assumes "make_file_list files p w = (Inr u, w')"
  shows "read_file w' p = Some (list_text files)"
proof -
  from make_file_list_Inr [OF assms] obtain w1 k where r: "resolve w1 p = Inr k"
    and nd: "node_at w1 k \<noteq> Some Dir" and k: "k \<noteq> []" and p: "p \<noteq> []"
    and f: "fs w' = (fs w1)(k \<mapsto> File (list_text files))" and c: "cwd w' = cwd w1"
    by blast
  have "\<forall>j. node_at w1 j = Some Dir \<longrightarrow> node_at w' j = Some Dir"
    using nd f by (auto simp: node_at_def)
  from resolve_mono [OF this c r] have "resolve w' p = Inr k" .
  with f k p show ?thesis
    by (simp add: read_file_def node_at_def)
qed

section \<open>Removing files\<close>

lemma os_remove_file:
  assumes "read_file w p = Some c"
  shows "\<exists>k. resolve w p = Inr k \<and> k \<noteq> []
           \<and> os_remove p w = (Inr (), log_event (Remove p) (w\<lparr>fs := (fs w)(k := None)\<rparr>))"
proof -
  from assms have p: "p \<noteq> []"
    by (auto simp: read_file_def split: if_splits)
  with assms obtain k where r: "resolve w p = Inr k"
    by (cases "resolve w p") (auto simp: read_file_def)
  from assms p r have n: "node_at w k = Some (File c)"
    by (auto simp: read_file_def split: option.splits node.splits)
  then have k: "k \<noteq> []" by (auto simp: node_at_def)
  from p r n have "os_remove p w = (Inr (), log_event (Remove p) (w\<lparr>fs := (fs w)(k := None)\<rparr>))"
    by (simp add: os_remove_def)
  with r k show ?thesis by simp
qed

lemma os_remove_Inr:
  assumes "os_remove p w = (Inr u, w')"
  shows "\<not> os_path_exists w' p" and "trace w' = trace w @ [Remove p]"
    and "\<exists>k. resolve w p = Inr k \<and> fs w' = (fs w)(k := None)" and "cwd w' = cwd w"
proof -
  from assms have p: "p \<noteq> []"
    by (auto simp: os_remove_def)
  with assms obtain k where r: "resolve w p = Inr k"
    by (cases "resolve w p") (auto simp: os_remove_def)
  from assms p r obtain c where n: "node_at w k = Some (File c)"
    by (cases "node_at w k") (auto simp: os_remove_def split: node.splits)
  from assms p r n have w': "w' = log_event (Remove p) (w\<lparr>fs := (fs w)(k := None)\<rparr>)"
    by (simp add: os_remove_def)
  from n have k: "k \<noteq> []" by (auto simp: node_at_def)
  show "trace w' = trace w @ [Remove p]" and "cwd w' = cwd w"
    by (simp_all add: w')
  show "\<exists>k. resolve w p = Inr k \<and> fs w' = (fs w)(k := None)"
    using r by (simp add: w')
  show "\<not> os_path_exists w' p"
  proof
    assume "os_path_exists w' p"
    then obtain j where rj: "resolve w' p = Inr j" and nj: "node_at w' j \<noteq> None"
      by (auto simp: os_path_exists_def split: sum.splits)
    have "\<forall>i. node_at w' i = Some Dir \<longrightarrow> node_at w i = Some Dir"
      by (auto simp: w' node_at_def split: if_splits)
    from resolve_mono [OF this _ rj] have "resolve w p = Inr j" by (simp add: w')
    with r have "j = k" by simp
    with nj k show False by (simp add: w' node_at_def)
  qed
qed

lemma trace_os_remove:
  "trace (snd (os_remove p v)) = trace v @ (if fst (os_remove p v) = Inr () then [Remove p] else [])"
  by (simp add: os_remove_def split: sum.splits option.splits node.splits)

section \<open>Paths in normal form\<close>

lemma rfind_slash1_snoc: "slash \<notin> set c \<Longrightarrow> rfind_slash1 (x @ slash # c) = Suc (length x)"
proof -
  assume "slash \<notin> set c"
  then have "takeWhile (\<lambda>y. y \<noteq> slash) (rev c @ slash # rev x) = rev c"
    by (subst takeWhile_tail) (auto simp: takeWhile_eq_all_conv)
  then show ?thesis by (simp add: rfind_slash1_def)
qed

lemma rfind_slash1_name: "slash \<notin> set c \<Longrightarrow> rfind_slash1 c = 0"
proof -
  assume "slash \<notin> set c"
  then have t: "takeWhile (\<lambda>y. y \<noteq> slash) (rev c) = rev c"
    by (auto simp: takeWhile_eq_all_conv)
  show ?thesis unfolding rfind_slash1_def t by simp
qed

lemma not_all_slash: "x \<noteq> [] \<Longrightarrow> last x \<noteq> slash \<Longrightarrow> x \<noteq> replicate n slash"
  by (metis last_replicate replicate_empty)

lemma hd_not_slash: "c \<noteq> [] \<Longrightarrow> slash \<notin> set c \<Longrightarrow> hd c \<noteq> slash"
  by (metis hd_in_set)

lemma rstrip_slash_id: "x = [] \<or> last x \<noteq> slash \<Longrightarrow> rstrip_slash x = x"
  by (cases x rule: rev_cases) (auto simp: rstrip_slash_def)

lemma os_path_split_snoc:
  assumes "slash \<notin> set c" and "x \<noteq> []" and "last x \<noteq> slash"
  shows "os_path_split (x @ slash # c) = (x, c)"
proof -
  have "x @ [slash] \<noteq> replicate (Suc (length x)) slash"
  proof
    assume "x @ [slash] = replicate (Suc (length x)) slash"
    then have "x @ [slash] = replicate (length x) slash @ [slash]"
      by (simp add: replicate_append_same)
    then have "x = replicate (length x) slash" by simp
    with not_all_slash [OF assms(2,3)] show False by metis
  qed
  moreover have "rstrip_slash (x @ [slash]) = x"
    using assms(2,3) rstrip_slash_id [of x] by (simp add: rstrip_slash_def)
  ultimately show ?thesis
    using assms(1) by (simp add: os_path_split_def rfind_slash1_snoc Let_def)
qed

lemma os_path_split_root: "slash \<notin> set c \<Longrightarrow> os_path_split (slash # c) = ([slash], c)"
  using rfind_slash1_snoc [of c "[]"] by (simp add: os_path_split_def Let_def)

lemma os_path_split_name: "slash \<notin> set c \<Longrightarrow> os_path_split c = ([], c)"
  by (simp add: os_path_split_def rfind_slash1_name Let_def)

lemma join_names_snoc: "cs \<noteq> [] \<Longrightarrow> join_names (cs @ [c]) = join_names cs @ slash # c"
  by (induction cs rule: join_names.induct) simp_all

lemma join_names_ends:
  assumes "cs \<noteq> []" and "\<forall>c\<in>set cs. proper_name c"
  shows "join_names cs \<noteq> []" and "last (join_names cs) \<noteq> slash" and "hd (join_names cs) \<noteq> slash"
proof -
  from assms show "join_names cs \<noteq> []"
    by (induction cs rule: join_names.induct) (auto simp: proper_name_def)
  from assms show "hd (join_names cs) \<noteq> slash"
    by (induction cs rule: join_names.induct) (auto simp: proper_name_def hd_append hd_not_slash)
  from assms obtain xs c where cs: "cs = xs @ [c]"
    by (cases cs rule: rev_cases) auto
  with assms(2) have c: "c \<noteq> []" "slash \<notin> set c" by (auto simp: proper_name_def)
  then have "last c \<noteq> slash" by (metis last_in_set)
  with c show "last (join_names cs) \<noteq> slash"
    by (cases "xs = []") (simp_all add: cs join_names_snoc)
qed

lemma split_from_append:
  "slash \<notin> set a \<Longrightarrow> split_from cur (a @ slash # rest) = (cur @ a) # split_from [] rest"
  by (induction a arbitrary: cur) auto

lemma split_from_name: "slash \<notin> set a \<Longrightarrow> split_from cur a = [cur @ a]"
  by (induction a arbitrary: cur) auto

lemma split_slash_join_names:
  "cs \<noteq> [] \<Longrightarrow> \<forall>c\<in>set cs. slash \<notin> set c \<Longrightarrow> split_slash (join_names cs) = cs"
  unfolding split_slash_def
  by (induction cs rule: join_names.induct) (simp_all add: split_from_name split_from_append)

lemma step_proper: "proper_name c \<Longrightarrow> step cur c = cur @ [c]"
  by (simp add: step_def proper_name_def)

lemma walk_names_Inr:
  assumes "\<forall>c\<in>set cs. proper_name c"
    and "\<forall>j<length cs. node_at w (cur @ take j cs) = Some Dir"
  shows "walk w cur cs = Inr (cur @ cs)"
  using assms
proof (induction cs arbitrary: cur)
  case Nil
  then show ?case by simp
next
  case (Cons c cs)
  from Cons.prems(2) have d: "node_at w cur = Some Dir" by force
  have "\<forall>j<length cs. node_at w ((cur @ [c]) @ take j cs) = Some Dir"
  proof (intro allI impI)
    fix j assume "j < length cs"
    with Cons.prems(2) have "node_at w (cur @ take (Suc j) (c # cs)) = Some Dir"
      by (metis Suc_less_eq length_Cons)
    then show "node_at w ((cur @ [c]) @ take j cs) = Some Dir" by simp
  qed
  with Cons.IH [of "cur @ [c]"] Cons.prems(1) d show ?case
    by (simp add: step_proper)
qed

lemma walk_names_dest:
  assumes "\<forall>c\<in>set cs. proper_name c" and "walk w cur cs = Inr k"
  shows "k = cur @ cs \<and> (\<forall>j<length cs. node_at w (cur @ take j cs) = Some Dir)"
  using assms
proof (induction cs arbitrary: cur)
  case Nil
  then show ?case by simp
next
  case (Cons c cs)
  from Cons.prems(2) have d: "node_at w cur = Some Dir"
    by (auto split: option.splits node.splits)
  with Cons.prems have "walk w (cur @ [c]) cs = Inr k" by (simp add: step_proper)
  from Cons.IH [OF _ this] Cons.prems(1)
  have k: "k = cur @ c # cs" and r: "\<forall>j<length cs. node_at w ((cur @ [c]) @ take j cs) = Some Dir"
    by simp_all
  have "\<forall>j<length (c # cs). node_at w (cur @ take j (c # cs)) = Some Dir"
  proof (intro allI impI)
    fix j assume j: "j < length (c # cs)"
    show "node_at w (cur @ take j (c # cs)) = Some Dir"
    proof (cases j)
      case 0
      with d show ?thesis by simp
    next
      case (Suc i)
      with j r show ?thesis by simp
    qed
  qed
  with k show ?case by simp
qed

lemma resolve_path_of:
  assumes "cs \<noteq> []" and "\<forall>c\<in>set cs. proper_name c"
  shows "resolve w (path_of a cs) = walk w (start_of w a) cs"
proof -
  from assms have s: "split_slash (join_names cs) = cs"
    by (intro split_slash_join_names) (auto simp: proper_name_def)
  note e = join_names_ends [OF assms]
  show ?thesis
  proof (cases a)
    case False
    with e s show ?thesis
      by (simp add: resolve_def path_of_def start_of_def)
  next
    case True
    have "split_slash (slash # join_names cs) = [] # cs"
      using s by (simp add: split_slash_def)
    with True show ?thesis
      by (simp add: resolve_def path_of_def start_of_def node_at_def step_def)
  qed
qed

lemma path_of_snoc:
  assumes "\<forall>c\<in>set (xs @ [c]). proper_name c"
  shows "os_path_split (path_of a (xs @ [c])) =
           (if xs = [] then (if a then [slash] else []) else path_of a xs, c)"
proof -
  from assms have c: "slash \<notin> set c" by (simp add: proper_name_def)
  show ?thesis
  proof (cases "xs = []")
    case True
    with c show ?thesis
      by (simp add: path_of_def os_path_split_root os_path_split_name)
  next
    case False
    with assms have e: "join_names xs \<noteq> []" "last (join_names xs) \<noteq> slash"
      using join_names_ends [of xs] by simp_all
    have "os_path_split (path_of a xs @ slash # c) = (path_of a xs, c)"
      using e by (intro os_path_split_snoc [OF c]) (auto simp: path_of_def)
    with False show ?thesis
      by (simp add: path_of_def join_names_snoc)
  qed
qed

lemma mkdir_path_path_of:
  assumes "cs \<noteq> []" and "\<forall>c\<in>set cs. proper_name c"
  shows "mkdir_path (path_of a cs) = path_of a cs" and "path_of a cs \<noteq> []"
proof -
  note e = join_names_ends [OF assms]
  from e have l: "last (path_of a cs) \<noteq> slash" and n: "path_of a cs \<noteq> []"
    by (simp_all add: path_of_def)
  show "path_of a cs \<noteq> []" by (rule n)
  have "path_of a cs \<noteq> replicate (length (path_of a cs)) slash"
    by (rule not_all_slash [OF n l])
  with l show "mkdir_path (path_of a cs) = path_of a cs"
    by (simp add: mkdir_path_def rstrip_slash_id)
qed

section \<open>Well-formed file systems\<close>

lemma wf_fs_parent: "wf_fs w \<Longrightarrow> k \<noteq> [] \<Longrightarrow> fs w k \<noteq> None \<Longrightarrow> node_at w (butlast k) = Some Dir"
  by (simp add: wf_fs_def)

lemma wf_fs_cwd: "wf_fs w \<Longrightarrow> node_at w (cwd w) = Some Dir"
  by (simp add: wf_fs_def)

lemma node_at_Nil [simp]: "node_at w [] = Some Dir"
  by (simp add: node_at_def)

lemma node_at_snoc [simp]: "node_at w (xs @ [x]) = fs w (xs @ [x])"
  by (simp add: node_at_def)

lemma wf_fs_prefix:
  assumes "wf_fs w" and "node_at w k \<noteq> None"
  shows "\<forall>j<length k. node_at w (take j k) = Some Dir"
  using assms(2)
proof (induction k rule: rev_induct)
  case Nil
  then show ?case by simp
next
  case (snoc x xs)
  from snoc.prems wf_fs_parent [OF assms(1), of "xs @ [x]"] have d: "node_at w xs = Some Dir"
    by simp
  then have "node_at w xs \<noteq> None" by simp
  from snoc.IH [OF this] have ih: "\<forall>j<length xs. node_at w (take j xs) = Some Dir" .
  show ?case
  proof (intro allI impI)
    fix j assume "j < length (xs @ [x])"
    then have "j < length xs \<or> j = length xs" by auto
    with ih d show "node_at w (take j (xs @ [x])) = Some Dir" by auto
  qed
qed

lemma wf_fs_below:
  assumes "wf_fs w" and "node_at w (s @ cs) \<noteq> None"
  shows "\<forall>j<length cs. node_at w (s @ take j cs) = Some Dir"
proof (intro allI impI)
  fix j assume "j < length cs"
  then have "length s + j < length (s @ cs)" by simp
  with wf_fs_prefix [OF assms] have "node_at w (take (length s + j) (s @ cs)) = Some Dir"
    by blast
  then show "node_at w (s @ take j cs) = Some Dir" by simp
qed

lemma os_path_exists_path_of:
  assumes "wf_fs w" and "cs \<noteq> []" and "\<forall>c\<in>set cs. proper_name c"
  shows "os_path_exists w (path_of a cs) = (node_at w (start_of w a @ cs) \<noteq> None)"
proof
  assume "os_path_exists w (path_of a cs)"
  then obtain k where "walk w (start_of w a) cs = Inr k" and "node_at w k \<noteq> None"
    by (auto simp: os_path_exists_def resolve_path_of [OF assms(2,3)] split: sum.splits)
  with walk_names_dest [OF assms(3), of w "start_of w a" k]
  show "node_at w (start_of w a @ cs) \<noteq> None" by simp
next
  assume n: "node_at w (start_of w a @ cs) \<noteq> None"
  from wf_fs_below [OF assms(1) n] have "walk w (start_of w a) cs = Inr (start_of w a @ cs)"
    by (rule walk_names_Inr [OF assms(3)])
  with n mkdir_path_path_of(2) [OF assms(2,3), of a] show "os_path_exists w (path_of a cs)"
    by (simp add: os_path_exists_def resolve_path_of [OF assms(2,3)])
qed

lemma os_path_exists_root: "os_path_exists w [slash]"
  by (simp add: os_path_exists_def resolve_def split_slash_def node_at_def step_def)

lemma os_mkdir_path_of:
  assumes "cs \<noteq> []" and "\<forall>c\<in>set cs. proper_name c"
    and "\<forall>j<length cs. node_at w (start_of w a @ take j cs) = Some Dir"
    and "node_at w (start_of w a @ cs) = None"
  shows "os_mkdir (path_of a cs) w =
           (Inr (), log_event (Mkdir (path_of a cs)) (w\<lparr>fs := (fs w)(start_of w a @ cs \<mapsto> Dir)\<rparr>))"
proof -
  from walk_names_Inr [OF assms(2,3)]
  have "resolve w (path_of a cs) = Inr (start_of w a @ cs)"
    by (simp add: resolve_path_of [OF assms(1,2)])
  with assms(4) mkdir_path_path_of [OF assms(1,2), of a] show ?thesis
    by (simp add: os_mkdir_def)
qed

lemma os_makedirs_path_of:
  assumes "wf_fs w" and "cs \<noteq> []" and "\<forall>c\<in>set cs. proper_name c"
    and "\<forall>j\<le>length cs. \<forall>c. node_at w (start_of w a @ take j cs) \<noteq> Some (File c)"
    and "node_at w (start_of w a @ cs) = None"
  shows "fst (os_makedirs (path_of a cs) w) = Inr ()
         \<and> (\<forall>j\<le>length cs.
               node_at (snd (os_makedirs (path_of a cs) w)) (start_of w a @ take j cs) = Some Dir)
         \<and> (\<forall>k. (\<forall>j\<le>length cs. k \<noteq> start_of w a @ take j cs) \<longrightarrow>
               fs (snd (os_makedirs (path_of a cs) w)) k = fs w k)"
  using assms
proof (induction cs arbitrary: w rule: rev_induct)
  case Nil
  then show ?case by simp
next
  case (snoc c xs)
  let ?s = "start_of w a"
  let ?p = "path_of a (xs @ [c])"
  from snoc.prems(3) have c: "proper_name c" and xsn: "\<forall>x\<in>set xs. proper_name x" by simp_all
  from c have cne: "c \<noteq> []" and cdot: "c \<noteq> ''.''" by (simp_all add: proper_name_def)
  have sp: "makedirs_split ?p = (if xs = [] then (if a then [slash] else []) else path_of a xs, c)"
    using path_of_snoc [OF snoc.prems(3), of a] cne by (simp add: makedirs_split_def)
  have start_dir: "node_at w ?s = Some Dir"
    using wf_fs_cwd [OF snoc.prems(1)] by (simp add: start_of_def)
  have last_step: "fst (os_mkdir ?p v) = Inr ()
         \<and> (\<forall>j\<le>length (xs @ [c]). node_at (snd (os_mkdir ?p v)) (?s @ take j (xs @ [c])) = Some Dir)
         \<and> (\<forall>k. (\<forall>j\<le>length (xs @ [c]). k \<noteq> ?s @ take j (xs @ [c])) \<longrightarrow>
               fs (snd (os_mkdir ?p v)) k = fs w k)"
    if v: "\<forall>j\<le>length xs. node_at v (?s @ take j xs) = Some Dir"
      and n: "node_at v (?s @ xs @ [c]) = None" and cv: "cwd v = cwd w"
      and same: "\<forall>k. (\<forall>j\<le>length xs. k \<noteq> ?s @ take j xs) \<longrightarrow> fs v k = fs w k" for v
  proof -
    have sv: "start_of v a = ?s" using cv by (simp add: start_of_def)
    have pre: "\<forall>j<length (xs @ [c]). node_at v (start_of v a @ take j (xs @ [c])) = Some Dir"
      using v sv by auto
    from n sv have n': "node_at v (start_of v a @ (xs @ [c])) = None" by simp
    have e: "os_mkdir ?p v = (Inr (), log_event (Mkdir ?p)
              (v\<lparr>fs := (fs v)(?s @ xs @ [c] \<mapsto> Dir)\<rparr>))"
      using os_mkdir_path_of [OF _ snoc.prems(3) pre n'] sv by simp
    have d: "\<forall>j\<le>length (xs @ [c]). node_at (snd (os_mkdir ?p v)) (?s @ take j (xs @ [c])) = Some Dir"
    proof (intro allI impI)
      fix j assume "j \<le> length (xs @ [c])"
      then have "j \<le> length xs \<or> j = Suc (length xs)" by auto
      then show "node_at (snd (os_mkdir ?p v)) (?s @ take j (xs @ [c])) = Some Dir"
        using v by (auto simp: e node_at_def)
    qed
    have u: "\<forall>k. (\<forall>j\<le>length (xs @ [c]). k \<noteq> ?s @ take j (xs @ [c])) \<longrightarrow>
               fs (snd (os_mkdir ?p v)) k = fs w k"
    proof (intro allI impI)
      fix k assume k: "\<forall>j\<le>length (xs @ [c]). k \<noteq> ?s @ take j (xs @ [c])"
      have "Suc (length xs) \<le> length (xs @ [c])" by simp
      with k have "k \<noteq> ?s @ take (Suc (length xs)) (xs @ [c])" by blast
      then have k1: "k \<noteq> ?s @ xs @ [c]" by simp
      have "\<forall>j\<le>length xs. k \<noteq> ?s @ take j xs"
      proof (intro allI impI)
        fix j assume j: "j \<le> length xs"
        then have "j \<le> length (xs @ [c])" by simp
        with k have "k \<noteq> ?s @ take j (xs @ [c])" by blast
        with j show "k \<noteq> ?s @ take j xs" by simp
      qed
      with same have "fs v k = fs w k" by blast
      with k1 show "fs (snd (os_mkdir ?p v)) k = fs w k" by (simp add: e)
    qed
    from d u show ?thesis by (simp add: e)
  qed
  from snoc.prems(5) have miss_p: "node_at w (?s @ xs @ [c]) = None" by simp
  show ?case
  proof (cases "fst (makedirs_split ?p) \<noteq> [] \<and> snd (makedirs_split ?p) \<noteq> []
                \<and> \<not> os_path_exists w (fst (makedirs_split ?p))")
    case False
    then have e: "os_makedirs ?p w = os_mkdir ?p w"
      by (subst os_makedirs.simps) auto
    have v: "\<forall>j\<le>length xs. node_at w (?s @ take j xs) = Some Dir"
    proof (cases "xs = []")
      case True
      with start_dir show ?thesis by simp
    next
      case xs: False
      with False sp cne have "os_path_exists w (path_of a xs)"
        using mkdir_path_path_of(2) [OF xs xsn, of a] by simp
      then have ex: "node_at w (?s @ xs) \<noteq> None"
        by (simp add: os_path_exists_path_of [OF snoc.prems(1) xs xsn])
      have "length xs \<le> length (xs @ [c])" by simp
      with snoc.prems(4)
      have "\<forall>c'. node_at w (?s @ take (length xs) (xs @ [c])) \<noteq> Some (File c')"
        by blast
      then have nf: "\<forall>c'. node_at w (?s @ xs) \<noteq> Some (File c')" by simp
      from ex obtain n where n: "node_at w (?s @ xs) = Some n" by blast
      with nf have d: "node_at w (?s @ xs) = Some Dir" by (cases n) simp_all
      show ?thesis
      proof (intro allI impI)
        fix j assume "j \<le> length xs"
        then have "j < length xs \<or> j = length xs" by auto
        with wf_fs_below [OF snoc.prems(1) ex] d show "node_at w (?s @ take j xs) = Some Dir"
          by auto
      qed
    qed
    from last_step [OF v miss_p refl] show ?thesis
      by (simp only: e) simp
  next
    case True
    with sp have xs: "xs \<noteq> []" and nex: "\<not> os_path_exists w (path_of a xs)"
      by (auto simp: os_path_exists_root split: if_splits)
    let ?r = "os_makedirs (path_of a xs) w"
    from nex have miss: "node_at w (?s @ xs) = None"
      by (simp add: os_path_exists_path_of [OF snoc.prems(1) xs xsn])
    have nofile: "\<forall>j\<le>length xs. \<forall>c'. node_at w (?s @ take j xs) \<noteq> Some (File c')"
    proof (intro allI impI)
      fix j c' assume j: "j \<le> length xs"
      then have "j \<le> length (xs @ [c])" by simp
      with snoc.prems(4) have "node_at w (?s @ take j (xs @ [c])) \<noteq> Some (File c')" by blast
      with j show "node_at w (?s @ take j xs) \<noteq> Some (File c')" by simp
    qed
    from snoc.IH [OF snoc.prems(1) xs xsn nofile miss]
    have ok: "fst ?r = Inr ()"
      and dirs: "\<forall>j\<le>length xs. node_at (snd ?r) (?s @ take j xs) = Some Dir"
      and same: "\<forall>k. (\<forall>j\<le>length xs. k \<noteq> ?s @ take j xs) \<longrightarrow> fs (snd ?r) k = fs w k"
      by simp_all
    from made_dirs_os_makedirs [of w "path_of a xs"] have cw: "cwd (snd ?r) = cwd w"
      by (auto simp: made_dirs_def)
    have "\<forall>j\<le>length xs. ?s @ xs @ [c] \<noteq> ?s @ take j xs"
    proof (intro allI impI)
      fix j assume "j \<le> length xs"
      show "?s @ xs @ [c] \<noteq> ?s @ take j xs"
      proof
        assume "?s @ xs @ [c] = ?s @ take j xs"
        then have "xs @ [c] = take j xs" by simp
        then have "length (xs @ [c]) = length (take j xs)" by (rule arg_cong)
        then show False by simp
      qed
    qed
    with same have "fs (snd ?r) (?s @ xs @ [c]) = fs w (?s @ xs @ [c])" by blast
    with miss_p have n1: "node_at (snd ?r) (?s @ xs @ [c]) = None"
      by (simp add: node_at_def)
    note ls = last_step [OF dirs n1 cw same]
    from ok have r: "?r = (Inr (), snd ?r)" by (metis prod.collapse)
    have "os_makedirs ?p w = makedirs_finish ?p (snd (makedirs_split ?p))
            (os_makedirs (fst (makedirs_split ?p)) w)"
      using True by (subst os_makedirs.simps) auto
    also have "\<dots> = makedirs_finish ?p c ?r"
      using sp xs by simp
    also have "\<dots> = os_mkdir ?p (snd ?r)"
      using cdot by (subst r) (simp add: makedirs_finish_def)
    finally have e: "os_makedirs ?p w = os_mkdir ?p (snd ?r)" .
    from ls show ?thesis by (simp only: e) simp
  qed
qed

section \<open>When a list file can be written\<close>

lemma open_w_ok:
  assumes "p \<noteq> []" and "resolve w p = Inr k" and "node_at w k \<noteq> Some Dir"
  shows "open_w p w = (Inr (), log_event (Open_w p) (w\<lparr>fs := (fs w)(k \<mapsto> File [])\<rparr>))"
proof (cases "node_at w k")
  case None
  with assms show ?thesis by (simp add: open_w_def)
next
  case (Some n)
  with assms show ?thesis by (cases n) (simp_all add: open_w_def)
qed

lemma os_path_dirname_path_of:
  assumes "\<forall>c\<in>set (ds @ [name]). proper_name c"
  shows "os_path_dirname (path_of a (ds @ [name])) =
           (if ds = [] then (if a then [slash] else []) else path_of a ds)"
  using path_of_snoc [OF assms, of a] by (simp add: os_path_dirname_def)

lemma make_file_list_path_of:
  assumes wf: "wf_fs w" and names: "\<forall>c\<in>set (ds @ [name]). proper_name c"
    and nofile: "\<forall>j\<le>length ds. \<forall>c. node_at w (start_of w a @ take j ds) \<noteq> Some (File c)"
    and notdir: "node_at w (start_of w a @ ds @ [name]) \<noteq> Some Dir"
  shows "fst (make_file_list files (path_of a (ds @ [name])) w) = Inr ()
         \<and> (\<forall>j\<le>length ds.
               node_at (snd (make_file_list files (path_of a (ds @ [name])) w))
                 (start_of w a @ take j ds) = Some Dir)
         \<and> cwd (snd (make_file_list files (path_of a (ds @ [name])) w)) = cwd w"
proof -
  let ?s = "start_of w a"
  let ?p = "path_of a (ds @ [name])"
  let ?d = "os_path_dirname ?p"
  let ?k = "?s @ ds @ [name]"
  define g where "g = (if ?d \<noteq> [] \<and> \<not> os_path_exists w ?d then os_makedirs ?d w else (Inr (), w))"
  from names have dn: "\<forall>c\<in>set ds. proper_name c" by simp
  note dir = os_path_dirname_path_of [OF names, of a]
  have start_dir: "node_at w ?s = Some Dir"
    using wf_fs_cwd [OF wf] by (simp add: start_of_def)
  have longer: "\<forall>j\<le>length ds. ?k \<noteq> ?s @ take j ds"
  proof (intro allI impI)
    fix j assume "j \<le> length ds"
    show "?k \<noteq> ?s @ take j ds"
    proof
      assume "?k = ?s @ take j ds"
      then have "ds @ [name] = take j ds" by simp
      then have "length (ds @ [name]) = length (take j ds)" by (rule arg_cong)
      then show False by simp
    qed
  qed
  have g: "fst g = Inr () \<and> cwd (snd g) = cwd w
           \<and> (\<forall>j\<le>length ds. node_at (snd g) (?s @ take j ds) = Some Dir)
           \<and> node_at (snd g) ?k \<noteq> Some Dir"
  proof (cases "ds = []")
    case True
    with dir have "g = (Inr (), w)"
      by (simp add: g_def os_path_exists_root)
    with True start_dir notdir show ?thesis by simp
  next
    case ne: False
    with dir have d: "?d = path_of a ds" by simp
    have dne: "?d \<noteq> []" using mkdir_path_path_of(2) [OF ne dn, of a] d by simp
    show ?thesis
    proof (cases "os_path_exists w ?d")
      case True
      then have ge: "g = (Inr (), w)" by (simp add: g_def)
      from True have ex: "node_at w (?s @ ds) \<noteq> None"
        by (simp add: d os_path_exists_path_of [OF wf ne dn])
      then obtain n where n: "node_at w (?s @ ds) = Some n" by blast
      have "length ds \<le> length ds" by simp
      with nofile have "\<forall>c. node_at w (?s @ take (length ds) ds) \<noteq> Some (File c)" by blast
      with n have dd: "node_at w (?s @ ds) = Some Dir" by (cases n) simp_all
      have "\<forall>j\<le>length ds. node_at w (?s @ take j ds) = Some Dir"
      proof (intro allI impI)
        fix j assume "j \<le> length ds"
        then have "j < length ds \<or> j = length ds" by auto
        with wf_fs_below [OF wf ex] dd show "node_at w (?s @ take j ds) = Some Dir" by auto
      qed
      with notdir show ?thesis by (simp add: ge)
    next
      case False
      with dne have ge: "g = os_makedirs ?d w" by (simp add: g_def)
      from False have miss: "node_at w (?s @ ds) = None"
        by (simp add: d os_path_exists_path_of [OF wf ne dn])
      from os_makedirs_path_of [OF wf ne dn nofile miss]
      have ok: "fst (os_makedirs ?d w) = Inr ()"
        and dirs: "\<forall>j\<le>length ds. node_at (snd (os_makedirs ?d w)) (?s @ take j ds) = Some Dir"
        and same: "\<forall>k. (\<forall>j\<le>length ds. k \<noteq> ?s @ take j ds) \<longrightarrow>
                     fs (snd (os_makedirs ?d w)) k = fs w k"
        by (simp_all add: d)
      from made_dirs_os_makedirs [of w ?d] have cw: "cwd (snd (os_makedirs ?d w)) = cwd w"
        by (auto simp: made_dirs_def)
      from same longer have "fs (snd (os_makedirs ?d w)) ?k = fs w ?k"
        by blast
      with notdir have "node_at (snd (os_makedirs ?d w)) ?k \<noteq> Some Dir"
        by (simp add: node_at_def)
      with ok dirs cw show ?thesis by (simp add: ge)
    qed
  qed
  then have g1: "fst g = Inr ()" and cg: "cwd (snd g) = cwd w"
    and dg: "\<forall>j\<le>length ds. node_at (snd g) (?s @ take j ds) = Some Dir"
    and ng: "node_at (snd g) ?k \<noteq> Some Dir"
    by blast+
  from cg have sg: "start_of (snd g) a = ?s" by (simp add: start_of_def)
  have pre: "\<forall>j<length (ds @ [name]). node_at (snd g) (start_of (snd g) a @ take j (ds @ [name]))
               = Some Dir"
    using dg sg by auto
  from walk_names_Inr [OF names pre]
  have r: "resolve (snd g) ?p = Inr ?k"
    using sg by (simp add: resolve_path_of [OF _ names])
  have pne: "?p \<noteq> []" using mkdir_path_path_of(2) [OF _ names, of a] by simp
  define w2 where "w2 = log_event (Open_w ?p) (snd g\<lparr>fs := (fs (snd g))(?k \<mapsto> File [])\<rparr>)"
  have o: "open_w ?p (snd g) = (Inr (), w2)"
    unfolding w2_def by (rule open_w_ok [OF pne r ng])
  from g1 have ge: "g = (Inr (), snd g)" by (metis prod.collapse)
  have "make_file_list files ?p w =
      (case g of (Inl e, w1) \<Rightarrow> (Inl e, w1)
       | (Inr u, w1) \<Rightarrow> (case open_w ?p w1 of (Inl e, w2) \<Rightarrow> (Inl e, w2)
                          | (Inr u, w2) \<Rightarrow> (Inr (), write_files ?p files w2)))"
    by (simp add: make_file_list_def Let_def g_def)
  also have "\<dots> = (Inr (), write_files ?p files w2)"
    by (subst ge) (simp add: o)
  finally have m: "make_file_list files ?p w = (Inr (), write_files ?p files w2)" .
  have r2: "resolve w2 ?p = Inr ?k"
    using resolve_update_file [OF r ng] by (simp add: w2_def)
  have f2: "fs w2 ?k = Some (File [])" by (simp add: w2_def)
  from write_files_fs [OF r2 f2, of files]
  have fw: "fs (write_files ?p files w2) = (fs w2)(?k \<mapsto> File (list_text files))"
    and cw: "cwd (write_files ?p files w2) = cwd w2"
    by simp_all
  have "\<forall>j\<le>length ds. node_at (write_files ?p files w2) (?s @ take j ds) = Some Dir"
  proof (intro allI impI)
    fix j assume j: "j \<le> length ds"
    with longer have ne: "?s @ take j ds \<noteq> ?k" by metis
    have fw2: "fs w2 = (fs (snd g))(?k \<mapsto> File [])" by (simp add: w2_def)
    from ne have "fs (write_files ?p files w2) (?s @ take j ds) = fs (snd g) (?s @ take j ds)"
      by (simp add: fw fw2)
    then have "node_at (write_files ?p files w2) (?s @ take j ds) = node_at (snd g) (?s @ take j ds)"
      by (simp only: node_at_def)
    with dg j show "node_at (write_files ?p files w2) (?s @ take j ds) = Some Dir" by simp
  qed
  moreover have "cwd (write_files ?p files w2) = cwd w"
    using cw cg by (simp add: w2_def)
  ultimately show ?thesis by (simp add: m)
qed

section \<open>Path resolution on concrete paths\<close>

text \<open>
  A directory made as \<^verbatim>\<open>out\<close> is found under each spelling of its name, the current
  directory exists, and the empty path and a path through a missing directory do not.
\<close>

lemma os_path_exists_spellings:
  "os_path_exists (snd (os_mkdir ''out'' empty_world)) ''out''
   \<and> os_path_exists (snd (os_mkdir ''out'' empty_world)) ''out/''
   \<and> os_path_exists (snd (os_mkdir ''out'' empty_world)) ''./out/.''
   \<and> os_path_exists (snd (os_mkdir ''out'' empty_world)) ''/work/out''
   \<and> os_path_exists (snd (os_mkdir ''out'' empty_world)) ''out/..''
   \<and> os_path_exists (snd (os_mkdir ''out'' empty_world)) ''.''
   \<and> \<not> os_path_exists (snd (os_mkdir ''out'' empty_world)) ''''
   \<and> \<not> os_path_exists (snd (os_mkdir ''out'' empty_world)) ''nope/..''
   \<and> \<not> os_path_exists empty_world ''out/''"
  by code_simp

text \<open>
  \<^verbatim>\<open>os.mkdir\<close> and \<^verbatim>\<open>os.makedirs\<close> make a directory named with a trailing slash, and
  \<^verbatim>\<open>os.mkdir\<close> fails on it once it is there; \<^verbatim>\<open>os.makedirs\<close> makes the missing
  directories above, also through \<^verbatim>\<open>.\<close> and \<^verbatim>\<open>..\<close>.
\<close>

lemma os_mkdir_trailing_slash:
  "fst (os_mkdir ''logs/'' empty_world) = Inr ()
   \<and> trace (snd (os_mkdir ''logs/'' empty_world)) = [Mkdir ''logs/'']
   \<and> os_path_isdir (snd (os_mkdir ''logs/'' empty_world)) ''logs''
   \<and> fst (os_mkdir ''logs/'' (snd (os_mkdir ''logs'' empty_world))) = Inl (OSError EEXIST)
   \<and> fst (os_mkdir ''a/b'' empty_world) = Inl (OSError ENOENT)"
  by code_simp

lemma os_makedirs_trailing_slash:
  "fst (os_makedirs ''logs/'' empty_world) = Inr ()
   \<and> trace (snd (os_makedirs ''logs/'' empty_world)) = [Mkdir ''logs/'']
   \<and> os_path_isdir (snd (os_makedirs ''logs/'' empty_world)) ''logs''
   \<and> fst (os_makedirs ''a/b/c/'' empty_world) = Inr ()
   \<and> trace (snd (os_makedirs ''a/b/c/'' empty_world)) = [Mkdir ''a'', Mkdir ''a/b'', Mkdir ''a/b/c/'']
   \<and> os_path_isdir (snd (os_makedirs ''a/b/c/'' empty_world)) ''a/b/c''
   \<and> fst (os_makedirs ''a/b/../c/./d/'' empty_world) = Inr ()
   \<and> os_path_isdir (snd (os_makedirs ''a/b/../c/./d/'' empty_world)) ''a/c/d''"
  by code_simp

text \<open>
  The stages that make their directory with \<^verbatim>\<open>os.makedirs\<close> accept a directory named
  with a trailing slash, missing or present.
\<close>

lemma make_control_dirs_trailing_slash:
  "fst (make_control_dirs ''nets/out.net'' ''logs/'' empty_world) = Inr ()
   \<and> trace (snd (make_control_dirs ''nets/out.net'' ''logs/'' empty_world))
       = [Mkdir ''nets'', Mkdir ''logs/'']
   \<and> fst (make_control_dirs ''nets/out.net'' ''logs/''
              (snd (make_control_dirs ''nets/out.net'' ''logs/'' empty_world))) = Inr ()
   \<and> trace (snd (make_control_dirs ''nets/out.net'' ''logs/''
                   (snd (make_control_dirs ''nets/out.net'' ''logs/'' empty_world))))
       = [Mkdir ''nets'', Mkdir ''logs/'']"
  by code_simp

lemma ingest_observation_trailing_slash:
  "fst (ingest_observation (const_env 0 []) [''obs/A.xml''] ''out/'' empty_world)
     = Inr [''out/A.cub'']
   \<and> os_path_isdir (snd (ingest_observation (const_env 0 []) [''obs/A.xml''] ''out/'' empty_world))
       ''out''"
  by code_simp

section \<open>The list file of \<^verbatim>\<open>make_file_list\<close>\<close>

text \<open>
  C2. \<^verbatim>\<open>make_file_list\<close>, in two parts.

  Whenever the call returns: the file at \<^verbatim>\<open>list_filename\<close> holds each path followed by
  a newline, in input order, whatever was at that path before; read line by line it
  gives the list back when no path holds a newline; what the call did is \<^verbatim>\<open>os.mkdir\<close>
  for some directories, then opening the file for writing, then one write for each
  path, in input order; and no other entry that was in the file system has changed.

  The call returns, every directory above the list file exists afterwards, and the
  file holds the list: on a well-formed file system, for a list file name in normal
  form (at any depth, absolute or relative), when nothing on the way to the file is a
  regular file and the name of the file is not that of a directory. None of the
  directories above the file need exist before the call.
\<close>

theorem make_file_list_writes:
  "(make_file_list files list_filename w = (Inr (), w') \<longrightarrow>
      read_file w' list_filename = Some (concat (map (\<lambda>x. x @ [newline]) files))
      \<and> ((\<forall>x\<in>set files. newline \<notin> set x) \<longrightarrow>
           file_lines (concat (map (\<lambda>x. x @ [newline]) files)) = files)
      \<and> (\<exists>dirs. trace w' = trace w @ map Mkdir dirs @ Open_w list_filename
                     # map (\<lambda>x. Write list_filename (x @ [newline])) files)
      \<and> (\<exists>k. resolve w' list_filename = Inr k
               \<and> (\<forall>j. j \<noteq> k \<and> fs w j \<noteq> None \<longrightarrow> fs w' j = fs w j)))
   \<and> (wf_fs w \<and> list_filename = path_of absolute (dir_names @ [base_name])
       \<and> (\<forall>c\<in>set (dir_names @ [base_name]). proper_name c)
       \<and> (\<forall>j\<le>length dir_names. \<forall>c. node_at w (start_of w absolute @ take j dir_names) \<noteq> Some (File c))
       \<and> node_at w (start_of w absolute @ dir_names @ [base_name]) \<noteq> Some Dir
     \<longrightarrow>
       fst (make_file_list files list_filename w) = Inr ()
       \<and> (\<forall>j. 0 < j \<and> j \<le> length dir_names \<longrightarrow>
             os_path_isdir (snd (make_file_list files list_filename w))
               (path_of absolute (take j dir_names)))
       \<and> read_file (snd (make_file_list files list_filename w)) list_filename
           = Some (concat (map (\<lambda>x. x @ [newline]) files)))"
proof (intro conjI impI)
  assume m: "make_file_list files list_filename w = (Inr (), w')"
  from make_file_list_file [OF m]
  show "read_file w' list_filename = Some (concat (map (\<lambda>x. x @ [newline]) files))"
    by (simp add: list_text_def)
  from make_file_list_Inr [OF m] obtain ds w1 k where md: "made_dirs w ds w1"
    and r: "resolve w1 list_filename = Inr k" and nd: "node_at w1 k \<noteq> Some Dir"
    and f: "fs w' = (fs w1)(k \<mapsto> File (list_text files))" and c: "cwd w' = cwd w1"
    and t: "trace w' = trace w1 @ Open_w list_filename
              # map (\<lambda>x. Write list_filename (x @ [newline])) files"
    by blast
  from md t show "\<exists>dirs. trace w' = trace w @ map Mkdir dirs @ Open_w list_filename
                     # map (\<lambda>x. Write list_filename (x @ [newline])) files"
    by (auto simp: made_dirs_def)
  have "\<forall>j. node_at w1 j = Some Dir \<longrightarrow> node_at w' j = Some Dir"
    using nd f by (auto simp: node_at_def)
  from resolve_mono [OF this c r] have r': "resolve w' list_filename = Inr k" .
  have "\<forall>j. j \<noteq> k \<and> fs w j \<noteq> None \<longrightarrow> fs w' j = fs w j"
  proof (intro allI impI)
    fix j assume j: "j \<noteq> k \<and> fs w j \<noteq> None"
    with md have "fs w1 j = fs w j" by (auto simp: made_dirs_def; metis)
    with j f show "fs w' j = fs w j" by simp
  qed
  with r' show "\<exists>k. resolve w' list_filename = Inr k
               \<and> (\<forall>j. j \<noteq> k \<and> fs w j \<noteq> None \<longrightarrow> fs w' j = fs w j)"
    by blast
next
  assume "\<forall>x\<in>set files. newline \<notin> set x"
  then show "file_lines (concat (map (\<lambda>x. x @ [newline]) files)) = files"
    using file_lines_list_text [of files] by (simp add: list_text_def)
next
  assume a: "wf_fs w \<and> list_filename = path_of absolute (dir_names @ [base_name])
       \<and> (\<forall>c\<in>set (dir_names @ [base_name]). proper_name c)
       \<and> (\<forall>j\<le>length dir_names. \<forall>c. node_at w (start_of w absolute @ take j dir_names) \<noteq> Some (File c))
       \<and> node_at w (start_of w absolute @ dir_names @ [base_name]) \<noteq> Some Dir"
  then have wf: "wf_fs w" and p: "list_filename = path_of absolute (dir_names @ [base_name])"
    and names: "\<forall>c\<in>set (dir_names @ [base_name]). proper_name c"
    and nofile: "\<forall>j\<le>length dir_names. \<forall>c.
                   node_at w (start_of w absolute @ take j dir_names) \<noteq> Some (File c)"
    and notdir: "node_at w (start_of w absolute @ dir_names @ [base_name]) \<noteq> Some Dir"
    by blast+
  let ?w' = "snd (make_file_list files list_filename w)"
  from make_file_list_path_of [OF wf names nofile notdir, of files]
  have ok: "fst (make_file_list files list_filename w) = Inr ()"
    and dirs: "\<forall>j\<le>length dir_names. node_at ?w' (start_of w absolute @ take j dir_names) = Some Dir"
    and cw: "cwd ?w' = cwd w"
    by (simp_all add: p)
  show "fst (make_file_list files list_filename w) = Inr ()" by (rule ok)
  from ok have m: "make_file_list files list_filename w = (Inr (), ?w')"
    by (metis prod.collapse)
  from make_file_list_file [OF m]
  show "read_file ?w' list_filename = Some (concat (map (\<lambda>x. x @ [newline]) files))"
    by (simp add: list_text_def)
  show "\<forall>j. 0 < j \<and> j \<le> length dir_names \<longrightarrow> os_path_isdir ?w' (path_of absolute (take j dir_names))"
  proof (intro allI impI)
    fix j assume j: "0 < j \<and> j \<le> length dir_names"
    let ?cs = "take j dir_names"
    from j have ne: "?cs \<noteq> []" by auto
    from names have pn: "\<forall>c\<in>set ?cs. proper_name c"
      by (auto dest: in_set_takeD)
    from cw have s: "start_of ?w' absolute = start_of w absolute" by (simp add: start_of_def)
    have "\<forall>i<length ?cs. node_at ?w' (start_of ?w' absolute @ take i ?cs) = Some Dir"
    proof (intro allI impI)
      fix i assume i: "i < length ?cs"
      then have "i \<le> length dir_names" by simp
      with dirs have "node_at ?w' (start_of w absolute @ take i dir_names) = Some Dir" by blast
      moreover from i have "i \<le> j" by simp
      then have "take i ?cs = take i dir_names" by (simp add: min_absorb1)
      ultimately show "node_at ?w' (start_of ?w' absolute @ take i ?cs) = Some Dir"
        by (simp add: s)
    qed
    from walk_names_Inr [OF pn this]
    have "resolve ?w' (path_of absolute ?cs) = Inr (start_of w absolute @ ?cs)"
      by (simp add: resolve_path_of [OF ne pn] s)
    moreover from j dirs have "node_at ?w' (start_of w absolute @ ?cs) = Some Dir" by blast
    ultimately show "os_path_isdir ?w' (path_of absolute ?cs)"
      using mkdir_path_path_of(2) [OF ne pn, of absolute] by (simp add: os_path_isdir_def)
  qed
qed

theorem make_file_list_writes_witness:
  "read_file (snd (make_file_list [''a.cub'', ''b.cub''] ''tmp/lists/x.lis'' empty_world))
      ''tmp/lists/x.lis'' = Some (''a.cub'' @ [newline] @ ''b.cub'' @ [newline])
   \<and> file_lines (''a.cub'' @ [newline] @ ''b.cub'' @ [newline]) = [''a.cub'', ''b.cub'']
   \<and> fst (make_file_list [''a.cub'', ''b.cub''] ''tmp/lists/x.lis'' empty_world) = Inr ()
   \<and> os_path_isdir (snd (make_file_list [''a.cub'', ''b.cub''] ''tmp/lists/x.lis'' empty_world))
        ''tmp''
   \<and> os_path_isdir (snd (make_file_list [''a.cub'', ''b.cub''] ''tmp/lists/x.lis'' empty_world))
        ''tmp/lists''"
proof -
  let ?m = "make_file_list [''a.cub'', ''b.cub''] ''tmp/lists/x.lis'' empty_world"
  have n: "\<forall>x\<in>set [''a.cub'', ''b.cub'']. newline \<notin> set x"
    by (simp add: newline_def)
  have wf: "wf_fs empty_world"
    by (simp add: wf_fs_def empty_world_def node_at_def)
  have p: "''tmp/lists/x.lis'' = path_of False ([''tmp'', ''lists''] @ [''x.lis''])"
    by (simp add: path_of_def slash_def)
  have names: "\<forall>c\<in>set ([''tmp'', ''lists''] @ [''x.lis'']). proper_name c"
    by (simp add: proper_name_def slash_def)
  have nofile: "\<forall>j\<le>length [''tmp'', ''lists'']. \<forall>c.
      node_at empty_world (start_of empty_world False @ take j [''tmp'', ''lists'']) \<noteq> Some (File c)"
    by (simp add: node_at_def empty_world_def)
  have notdir: "node_at empty_world (start_of empty_world False @ [''tmp'', ''lists''] @ [''x.lis''])
      \<noteq> Some Dir"
    by (simp add: node_at_def empty_world_def start_of_def)
  note inst = make_file_list_writes [where files = "[''a.cub'', ''b.cub'']"
      and list_filename = "''tmp/lists/x.lis''" and w = empty_world and w' = "snd ?m"
      and absolute = False and dir_names = "[''tmp'', ''lists'']" and base_name = "''x.lis''"]
  from inst [THEN conjunct2, rule_format, OF conjI [OF wf conjI [OF p conjI [OF names
              conjI [OF nofile notdir]]]]]
  have ok: "fst ?m = Inr ()"
    and dirs: "\<forall>j. 0 < j \<and> j \<le> length [''tmp'', ''lists''] \<longrightarrow>
                 os_path_isdir (snd ?m) (path_of False (take j [''tmp'', ''lists'']))"
    and rd: "read_file (snd ?m) ''tmp/lists/x.lis''
               = Some (concat (map (\<lambda>x. x @ [newline]) [''a.cub'', ''b.cub'']))"
    by blast+
  from dirs [rule_format, of 1] have d1: "os_path_isdir (snd ?m) ''tmp''"
    by (simp add: path_of_def)
  from dirs [rule_format, of 2] have d2: "os_path_isdir (snd ?m) ''tmp/lists''"
    by (simp add: path_of_def slash_def)
  from ok have m: "?m = (Inr (), snd ?m)" by (metis prod.collapse)
  from inst [THEN conjunct1, rule_format, OF m] n
  have fl: "file_lines (concat (map (\<lambda>x. x @ [newline]) [''a.cub'', ''b.cub'']))
              = [''a.cub'', ''b.cub'']"
    by blast
  from ok d1 d2 rd fl show ?thesis by simp
qed

section \<open>Projection\<close>



text \<open>
  C9. \<^verbatim>\<open>project_framelet\<close> does the same with \<^verbatim>\<open>trim=True\<close> and with
  \<^verbatim>\<open>trim=False\<close>: the result and the world after are equal, and the one command it
  runs is \<^verbatim>\<open>cam2map from=... to=... map=... pixres=map\<close>, in which \<^verbatim>\<open>trim\<close> does
  not occur.
\<close>

theorem project_framelet_trim_ignored:
  "project_framelet env image_file map_file output_file True w =
     project_framelet env image_file map_file output_file False w
   \<and> trace (snd (project_framelet env image_file map_file output_file trim w)) =
     trace w @ [System (''cam2map from='' @ image_file @ '' to='' @ output_file
                        @ '' map='' @ map_file @ '' pixres=map'')]"
  by (simp add: project_framelet_def trace_os_system)



section \<open>Ingestion\<close>

lemma drop_rfind_slash1: "drop (rfind_slash1 p) p = rev (takeWhile (\<lambda>c. c \<noteq> slash) (rev p))"
proof -
  have "drop (length p - n) p = rev (take n (rev p))" for n
    by (simp add: take_rev)
  from this [of "length (takeWhile (\<lambda>c. c \<noteq> slash) (rev p))"] show ?thesis
    by (simp add: rfind_slash1_def takeWhile_eq_take [symmetric])
qed

lemma basename_no_slash: "slash \<notin> set (os_path_basename p)"
proof
  assume "slash \<in> set (os_path_basename p)"
  then have "slash \<in> set (takeWhile (\<lambda>c. c \<noteq> slash) (rev p))"
    by (simp add: os_path_basename_def os_path_split_def Let_def drop_rfind_slash1)
  then show False
    by (auto dest: set_takeWhileD)
qed

text \<open>
  C5, as amended. For a label whose basename is a stem followed by four characters,
  \<^verbatim>\<open>ingest_framelet\<close> returns \<^verbatim>\<open>os.path.join(output_dir, stem + '.cub')\<close>, whatever the
  tools' exit statuses are; this is \<^verbatim>\<open>{output_dir}/{stem}.cub\<close> when the output
  directory is not empty and does not end in a slash.
\<close>

theorem ingest_framelet_output_path:
  assumes "os_path_basename filename = stem @ ext" and "length ext = 4"
  shows "fst (ingest_framelet env filename output_dir w) =
           Inr (os_path_join output_dir (stem @ ''.cub''))
         \<and> fst (ingest_framelet (env\<lparr>tool_status := statuses\<rparr>) filename output_dir w) =
           fst (ingest_framelet env filename output_dir w)
         \<and> (output_dir \<noteq> [] \<and> last output_dir \<noteq> slash \<longrightarrow>
              os_path_join output_dir (stem @ ''.cub'') = output_dir @ ''/'' @ stem @ ''.cub'')"
proof -
  from assms have "drop_last4 (os_path_basename filename) = stem"
    by (simp add: drop_last4_append)
  then have r: "fst (ingest_framelet e filename output_dir w) =
           Inr (os_path_join output_dir (stem @ ''.cub''))" for e
    by (simp add: ingest_framelet_def Let_def)
  from basename_no_slash [of filename] assms(1) have "slash \<notin> set stem"
    by simp
  then have "hd (stem @ ''.cub'') \<noteq> slash"
    by (cases stem) (auto simp: slash_def)
  then have "output_dir \<noteq> [] \<and> last output_dir \<noteq> slash \<longrightarrow>
              os_path_join output_dir (stem @ ''.cub'') = output_dir @ ''/'' @ stem @ ''.cub''"
    by (simp add: os_path_join_def slash_def)
  with r show ?thesis by simp
qed

theorem ingest_framelet_output_path_witness:
  "fst (ingest_framelet (const_env 256 []) ''label/foo.xml'' ''out'' empty_world) =
     Inr ''out/foo.cub''"
proof -
  have b: "os_path_basename ''label/foo.xml'' = ''foo'' @ ''.xml''"
    by code_simp
  from ingest_framelet_output_path [OF b, of "const_env 256 []" "''out''" empty_world]
  show ?thesis by (simp add: slash_def)
qed

text \<open>
  C5 as stated fails for an output directory that ends in a slash: the label
  \<^verbatim>\<open>label/foo.xml\<close> ingested into \<^verbatim>\<open>out/\<close> gives \<^verbatim>\<open>out/foo.cub\<close>, which is not
  \<^verbatim>\<open>out//foo.cub\<close>.
\<close>

theorem ingest_framelet_trailing_slash_counterexample:
  "os_path_basename ''label/foo.xml'' = ''foo'' @ ''.xml''
   \<and> fst (ingest_framelet (const_env 0 []) ''label/foo.xml'' ''out/'' empty_world)
       = Inr ''out/foo.cub''
   \<and> ''out/foo.cub'' \<noteq> ''out/'' @ ''/'' @ ''foo'' @ ''.cub''"
  by code_simp

text \<open>
  C8. \<^verbatim>\<open>ingest_framelet\<close> makes a missing output directory with \<^verbatim>\<open>mkdir\<close>, which
  does not make missing parents: with neither \<^verbatim>\<open>out\<close> nor \<^verbatim>\<open>out/cubes\<close> present, the
  directory \<^verbatim>\<open>out/cubes\<close> is still missing after the call, and the two tools were run
  all the same. \<^verbatim>\<open>ingest_observation\<close>, with \<^verbatim>\<open>os.makedirs\<close>, makes it.
\<close>

theorem ingest_framelet_missing_parent:
  "\<not> os_path_exists
       (snd (ingest_framelet (const_env 0 []) ''label/foo.xml'' ''out/cubes'' empty_world))
       ''out/cubes''
   \<and> trace (snd (ingest_framelet (const_env 0 []) ''label/foo.xml'' ''out/cubes'' empty_world))
       = [Print ''foo.cub'', System ''mkdir out/cubes'',
          System ''tgocassis2isis from=label/foo.xml to=out/cubes/foo.cub'',
          System ''spiceinit ckpredict=true spkpredict=true from=out/cubes/foo.cub'']
   \<and> os_path_isdir (snd (ingest_observation (const_env 0 []) [] ''out/cubes'' empty_world))
       ''out/cubes''"
  by code_simp

section \<open>Mosaics\<close>

lemma read_file_log_event [simp]: "read_file (log_event e w) p = read_file w p"
  by (simp add: read_file_def node_at_log_event split: sum.splits)

text \<open>
  C3. Once \<^verbatim>\<open>mosaic_filter\<close> has written its list file: if a map file is named and
  does not exist when the function looks for it, the function prints that the map file
  does not exist, removes the list file and returns; nothing else happens, so no
  tool is run. Without a map file the list file is removed once \<^verbatim>\<open>automos\<close> has run.
  Whenever \<^verbatim>\<open>mosaic_filter\<close> returns, on either path, its last action was to remove
  the list file, and the list file is gone.
\<close>

theorem mosaic_filter_missing_map_file:
  assumes "make_file_list filenames (os_path_join temp_dir ''framelets.lis'') w = (Inr (), w1)"
  shows "(map_file \<noteq> [] \<and> \<not> os_path_exists w1 map_file \<longrightarrow>
           (\<exists>w'. mosaic_filter env filenames output_file map_file w = (Inr (), w')
              \<and> trace w' = trace w1 @ [Print (''Map file ['' @ map_file @ ''] does not exist''),
                                        Remove (os_path_join temp_dir ''framelets.lis'')]
              \<and> cwd w' = cwd w1
              \<and> (\<exists>k. resolve w1 (os_path_join temp_dir ''framelets.lis'') = Inr k
                       \<and> fs w' = (fs w1)(k := None))))
         \<and> (map_file = [] \<longrightarrow>
              mosaic_filter env filenames output_file map_file w =
                os_remove (os_path_join temp_dir ''framelets.lis'')
                  (snd (os_system env (''automos fromlist='' @ os_path_join temp_dir ''framelets.lis''
                                       @ '' mosaic='' @ output_file) w1)))
         \<and> (\<forall>w'. mosaic_filter env filenames output_file map_file w = (Inr (), w') \<longrightarrow>
               \<not> os_path_exists w' (os_path_join temp_dir ''framelets.lis'')
               \<and> last (trace w') = Remove (os_path_join temp_dir ''framelets.lis''))"
proof -
  let ?m = "os_path_join temp_dir ''framelets.lis''"
  let ?msg = "Print (''Map file ['' @ map_file @ ''] does not exist'')"
  note f = make_file_list_file [OF assms]
  have abort: "map_file \<noteq> [] \<and> \<not> os_path_exists w1 map_file \<longrightarrow>
           (\<exists>w'. mosaic_filter env filenames output_file map_file w = (Inr (), w')
              \<and> trace w' = trace w1 @ [?msg, Remove ?m]
              \<and> cwd w' = cwd w1
              \<and> (\<exists>k. resolve w1 ?m = Inr k \<and> fs w' = (fs w1)(k := None)))"
  proof
    assume a: "map_file \<noteq> [] \<and> \<not> os_path_exists w1 map_file"
    from f have "read_file (log_event ?msg w1) ?m = Some (list_text filenames)"
      by simp
    from os_remove_file [OF this] obtain k where k: "resolve w1 ?m = Inr k"
      and r: "os_remove ?m (log_event ?msg w1) =
       (Inr (), log_event (Remove ?m) (log_event ?msg w1\<lparr>fs := (fs (log_event ?msg w1))(k := None)\<rparr>))"
      by auto
    let ?w' = "log_event (Remove ?m) (log_event ?msg w1\<lparr>fs := (fs (log_event ?msg w1))(k := None)\<rparr>)"
    from a assms have "mosaic_filter env filenames output_file map_file w =
        os_remove ?m (log_event ?msg w1)"
      by (simp add: mosaic_filter_def Let_def)
    then have "mosaic_filter env filenames output_file map_file w = (Inr (), ?w')"
      by (simp only: r)
    moreover have "trace ?w' = trace w1 @ [?msg, Remove ?m]"
      by (simp add: log_event_def)
    moreover have "cwd ?w' = cwd w1"
      by (simp add: log_event_def)
    moreover have "fs ?w' = (fs w1)(k := None)"
      by (simp add: log_event_def)
    ultimately show "\<exists>w'. mosaic_filter env filenames output_file map_file w = (Inr (), w')
              \<and> trace w' = trace w1 @ [?msg, Remove ?m]
              \<and> cwd w' = cwd w1
              \<and> (\<exists>k. resolve w1 ?m = Inr k \<and> fs w' = (fs w1)(k := None))"
      using k by blast
  qed
  have normal: "map_file = [] \<longrightarrow>
              mosaic_filter env filenames output_file map_file w =
                os_remove ?m (snd (os_system env (''automos fromlist='' @ ?m
                                       @ '' mosaic='' @ output_file) w1))"
    using assms by (simp add: mosaic_filter_def Let_def)
  have "\<exists>w0. mosaic_filter env filenames output_file map_file w = os_remove ?m w0"
    using assms
    by (auto simp: mosaic_filter_def Let_def split: prod.splits)
  then obtain w0 where eq: "mosaic_filter env filenames output_file map_file w = os_remove ?m w0"
    by blast
  have gone: "\<forall>w'. mosaic_filter env filenames output_file map_file w = (Inr (), w') \<longrightarrow>
               \<not> os_path_exists w' ?m \<and> last (trace w') = Remove ?m"
  proof (intro allI impI)
    fix w'
    assume "mosaic_filter env filenames output_file map_file w = (Inr (), w')"
    with eq have "os_remove ?m w0 = (Inr (), w')" by simp
    from os_remove_Inr(1,2) [OF this] show "\<not> os_path_exists w' ?m \<and> last (trace w') = Remove ?m"
      by simp
  qed
  from abort normal gone show ?thesis by (intro conjI)
qed

theorem mosaic_filter_missing_map_file_witness:
  "fst (mosaic_filter (const_env 0 []) [''a_proj.cub''] ''mos.cub'' ''missing.map'' empty_world)
     = Inr ()
   \<and> trace (snd (mosaic_filter (const_env 0 []) [''a_proj.cub''] ''mos.cub'' ''missing.map''
                   empty_world))
     = [Mkdir ''cassis_temp'', Open_w ''cassis_temp/framelets.lis'',
        Write ''cassis_temp/framelets.lis'' (''a_proj.cub'' @ [newline]),
        Print ''Map file [missing.map] does not exist'',
        Remove ''cassis_temp/framelets.lis'']
   \<and> \<not> os_path_exists
         (snd (mosaic_filter (const_env 0 []) [''a_proj.cub''] ''mos.cub'' ''missing.map''
                 empty_world)) ''cassis_temp/framelets.lis''"
proof -
  let ?w1 = "snd (make_file_list [''a_proj.cub''] (os_path_join temp_dir ''framelets.lis'')
                    empty_world)"
  let ?r = "mosaic_filter (const_env 0 []) [''a_proj.cub''] ''mos.cub'' ''missing.map''
              empty_world"
  have "fst (make_file_list [''a_proj.cub''] (os_path_join temp_dir ''framelets.lis'')
               empty_world) = Inr ()"
    by code_simp
  then have h: "make_file_list [''a_proj.cub''] (os_path_join temp_dir ''framelets.lis'')
                  empty_world = (Inr (), ?w1)"
    by (metis prod.collapse)
  have n: "''missing.map'' \<noteq> [] \<and> \<not> os_path_exists ?w1 ''missing.map''"
    by code_simp
  have t: "trace (snd (make_file_list [''a_proj.cub''] ''cassis_temp/framelets.lis'' empty_world))
      = [Mkdir ''cassis_temp'', Open_w ''cassis_temp/framelets.lis'',
         Write ''cassis_temp/framelets.lis'' (''a_proj.cub'' @ [newline])]"
    by code_simp
  have j: "os_path_join temp_dir ''framelets.lis'' = ''cassis_temp/framelets.lis''"
    by code_simp
  note inst = mosaic_filter_missing_map_file
         [OF h, of "''missing.map''" "const_env 0 []" "''mos.cub''"]
  from inst [THEN conjunct1, rule_format, OF n]
  obtain w' where r: "?r = (Inr (), w')"
    and tr: "trace w' = trace ?w1 @ [Print (''Map file ['' @ ''missing.map'' @ ''] does not exist''),
                                        Remove (os_path_join temp_dir ''framelets.lis'')]"
    by blast
  from inst [THEN conjunct2, THEN conjunct2, rule_format, OF r]
  have "\<not> os_path_exists w' (os_path_join temp_dir ''framelets.lis'')"
    by simp
  with r tr show ?thesis
    by (simp add: t j)
qed

text \<open>
  C4. Once \<^verbatim>\<open>mosaic_filter\<close> has written its list file and the map file exists, it
  runs four \<^verbatim>\<open>getkey\<close> queries on the map file, for \<^verbatim>\<open>MinimumLatitude\<close>,
  \<^verbatim>\<open>MaximumLatitude\<close>, \<^verbatim>\<open>MinimumLongitude\<close> and \<^verbatim>\<open>MaximumLongitude\<close> in this order,
  then one \<^verbatim>\<open>automos\<close> command whose \<^verbatim>\<open>grange=user minlat= maxlat= minlon= maxlon=\<close>
  arguments are the four outputs with the white space around them stripped, and
  then removes the list file. The trace holds these events and no other.
\<close>

theorem mosaic_filter_map_range:
  assumes "make_file_list filenames (os_path_join temp_dir ''framelets.lis'') w = (Inr (), w1)"
    and "map_file \<noteq> []" and "os_path_exists w1 map_file"
    and "popen_communicate env
           (''getkey from='' @ map_file @ '' keyword=MinimumLatitude grpname=Mapping'') w1
         = (min_lat, w2)"
    and "popen_communicate env
           (''getkey from='' @ map_file @ '' keyword=MaximumLatitude grpname=Mapping'') w2
         = (max_lat, w3)"
    and "popen_communicate env
           (''getkey from='' @ map_file @ '' keyword=MinimumLongitude grpname=Mapping'') w3
         = (min_lon, w4)"
    and "popen_communicate env
           (''getkey from='' @ map_file @ '' keyword=MaximumLongitude grpname=Mapping'') w4
         = (max_lon, w5)"
    and "command = ''automos fromlist='' @ os_path_join temp_dir ''framelets.lis''
           @ '' mosaic='' @ output_file
           @ '' grange=user minlat='' @ py_strip min_lat @ '' maxlat='' @ py_strip max_lat
           @ '' minlon='' @ py_strip min_lon @ '' maxlon='' @ py_strip max_lon"
  shows "mosaic_filter env filenames output_file map_file w =
           os_remove (os_path_join temp_dir ''framelets.lis'') (snd (os_system env command w5))
         \<and> trace (snd (os_system env command w5)) =
             trace w1 @
             [Popen (''getkey from='' @ map_file @ '' keyword=MinimumLatitude grpname=Mapping''),
              Popen (''getkey from='' @ map_file @ '' keyword=MaximumLatitude grpname=Mapping''),
              Popen (''getkey from='' @ map_file @ '' keyword=MinimumLongitude grpname=Mapping''),
              Popen (''getkey from='' @ map_file @ '' keyword=MaximumLongitude grpname=Mapping''),
              System command]
         \<and> trace (snd (mosaic_filter env filenames output_file map_file w)) =
             trace (snd (os_system env command w5))
             @ (if fst (mosaic_filter env filenames output_file map_file w) = Inr ()
                then [Remove (os_path_join temp_dir ''framelets.lis'')] else [])"
proof -
  let ?m = "os_path_join temp_dir ''framelets.lis''"
  have eq: "mosaic_filter env filenames output_file map_file w =
           os_remove ?m (snd (os_system env command w5))"
    using assms by (simp add: mosaic_filter_def Let_def getkey_command_def)
  have t: "trace w2 = trace w1 @ [Popen (''getkey from='' @ map_file @ '' keyword=MinimumLatitude grpname=Mapping'')]"
    "trace w3 = trace w2 @ [Popen (''getkey from='' @ map_file @ '' keyword=MaximumLatitude grpname=Mapping'')]"
    "trace w4 = trace w3 @ [Popen (''getkey from='' @ map_file @ '' keyword=MinimumLongitude grpname=Mapping'')]"
    "trace w5 = trace w4 @ [Popen (''getkey from='' @ map_file @ '' keyword=MaximumLongitude grpname=Mapping'')]"
    using assms(4-7) trace_popen_communicate [of env _ w1] trace_popen_communicate [of env _ w2]
      trace_popen_communicate [of env _ w3] trace_popen_communicate [of env _ w4]
    by (metis snd_conv)+
  have tr: "trace (snd (os_system env command w5)) =
             trace w1 @
             [Popen (''getkey from='' @ map_file @ '' keyword=MinimumLatitude grpname=Mapping''),
              Popen (''getkey from='' @ map_file @ '' keyword=MaximumLatitude grpname=Mapping''),
              Popen (''getkey from='' @ map_file @ '' keyword=MinimumLongitude grpname=Mapping''),
              Popen (''getkey from='' @ map_file @ '' keyword=MaximumLongitude grpname=Mapping''),
              System command]"
    by (simp add: trace_os_system t)
  from eq tr trace_os_remove [of ?m "snd (os_system env command w5)"] show ?thesis
    by simp
qed

theorem mosaic_filter_map_range_witness:
  "trace (snd (mosaic_filter (const_env 0 ('' 12.5'' @ [newline])) [''a_proj.cub''] ''mos.cub''
                 ''eq.map'' map_world))
     = [Mkdir ''cassis_temp'', Open_w ''cassis_temp/framelets.lis'',
        Write ''cassis_temp/framelets.lis'' (''a_proj.cub'' @ [newline]),
        Popen ''getkey from=eq.map keyword=MinimumLatitude grpname=Mapping'',
        Popen ''getkey from=eq.map keyword=MaximumLatitude grpname=Mapping'',
        Popen ''getkey from=eq.map keyword=MinimumLongitude grpname=Mapping'',
        Popen ''getkey from=eq.map keyword=MaximumLongitude grpname=Mapping'',
        System (''automos fromlist=cassis_temp/framelets.lis mosaic=mos.cub''
                @ '' grange=user minlat=12.5 maxlat=12.5 minlon=12.5 maxlon=12.5''),
        Remove ''cassis_temp/framelets.lis'']"
proof -
  let ?env = "const_env 0 ('' 12.5'' @ [newline])"
  let ?w1 = "snd (make_file_list [''a_proj.cub''] (os_path_join temp_dir ''framelets.lis'')
                    map_world)"
  let ?q1 = "''getkey from='' @ ''eq.map'' @ '' keyword=MinimumLatitude grpname=Mapping''"
  let ?q2 = "''getkey from='' @ ''eq.map'' @ '' keyword=MaximumLatitude grpname=Mapping''"
  let ?q3 = "''getkey from='' @ ''eq.map'' @ '' keyword=MinimumLongitude grpname=Mapping''"
  let ?q4 = "''getkey from='' @ ''eq.map'' @ '' keyword=MaximumLongitude grpname=Mapping''"
  let ?w2 = "snd (popen_communicate ?env ?q1 ?w1)"
  let ?w3 = "snd (popen_communicate ?env ?q2 ?w2)"
  let ?w4 = "snd (popen_communicate ?env ?q3 ?w3)"
  let ?w5 = "snd (popen_communicate ?env ?q4 ?w4)"
  have "fst (make_file_list [''a_proj.cub''] (os_path_join temp_dir ''framelets.lis'')
               map_world) = Inr ()"
    by code_simp
  then have h1: "make_file_list [''a_proj.cub''] (os_path_join temp_dir ''framelets.lis'')
                  map_world = (Inr (), ?w1)"
    by (metis prod.collapse)
  have h2: "''eq.map'' \<noteq> []" by simp
  have h3: "os_path_exists ?w1 ''eq.map''" by code_simp
  have h4: "popen_communicate ?env ?q1 ?w1 = (fst (popen_communicate ?env ?q1 ?w1), ?w2)"
    by (rule prod.collapse [symmetric])
  have h5: "popen_communicate ?env ?q2 ?w2 = (fst (popen_communicate ?env ?q2 ?w2), ?w3)"
    by (rule prod.collapse [symmetric])
  have h6: "popen_communicate ?env ?q3 ?w3 = (fst (popen_communicate ?env ?q3 ?w3), ?w4)"
    by (rule prod.collapse [symmetric])
  have h7: "popen_communicate ?env ?q4 ?w4 = (fst (popen_communicate ?env ?q4 ?w4), ?w5)"
    by (rule prod.collapse [symmetric])
  note inst = mosaic_filter_map_range [OF h1 h2 h3 h4 h5 h6 h7 refl, of "''mos.cub''"]
  have out: "fst (popen_communicate ?env q v) = '' 12.5'' @ [newline]" for q v
    by (simp add: popen_communicate_def const_env_def)
  have st: "py_strip ('' 12.5'' @ [newline]) = ''12.5''"
    by code_simp
  have t: "trace (snd (make_file_list [''a_proj.cub''] ''cassis_temp/framelets.lis'' map_world))
      = [Mkdir ''cassis_temp'', Open_w ''cassis_temp/framelets.lis'',
         Write ''cassis_temp/framelets.lis'' (''a_proj.cub'' @ [newline])]"
    by code_simp
  have j: "os_path_join temp_dir ''framelets.lis'' = ''cassis_temp/framelets.lis''"
    by code_simp
  have ok: "fst (mosaic_filter ?env [''a_proj.cub''] ''mos.cub'' ''eq.map'' map_world) = Inr ()"
    by code_simp
  from inst [THEN conjunct2] show ?thesis
    unfolding out st by (simp add: t j ok [simplified])
qed

section \<open>Control networks\<close>

lemma trace_run_commands: "trace (run_commands env cs w) = trace w @ map System cs"
  by (induction cs arbitrary: w) (simp_all add: trace_os_system)

lemma run_commands_append:
  "run_commands env (cs @ ds) w = run_commands env ds (run_commands env cs w)"
  by (induction cs arbitrary: w) simp_all

lemma all_succeed_append:
  "all_succeed env (cs @ ds) w =
     (all_succeed env cs w \<and> all_succeed env ds (run_commands env cs w))"
  by (induction cs arbitrary: w) auto

lemma match_framelets_eq:
  "match_framelets env base train output_network network_id point_id lg w =
     (Inr (tool_status env w
             (match_framelets_command base train output_network network_id point_id lg)),
      snd (os_system env
             (match_framelets_command base train output_network network_id point_id lg) w))"
  by (simp add: match_framelets_def os_system_def)

lemma match_loop_step:
  assumes "index + 1 < length images"
  shows "match_loop env images network_dir filter_name log_dir (index # indices) nets w =
     (if tool_status env w (pair_command images network_dir filter_name log_dir index) \<noteq> 0
      then (Inr (Inl (tool_status env w
                       (pair_command images network_dir filter_name log_dir index))),
            log_event (Print (''Failed to match framelets ['' @ images ! index @ ''] and [''
                              @ images ! (index + 1) @ '']''))
              (snd (os_system env
                      (pair_command images network_dir filter_name log_dir index) w)))
      else match_loop env images network_dir filter_name log_dir indices
             (nets @ [pair_network network_dir filter_name index])
             (snd (os_system env
                     (pair_command images network_dir filter_name log_dir index) w)))"
  using assms
  by (simp add: match_framelets_eq pair_command_def pair_network_def Let_def)

lemma match_loop_all_succeed:
  assumes "\<forall>i\<in>set indices. i + 1 < length images"
    and "all_succeed env (map (pair_command images network_dir filter_name log_dir) indices) w"
  shows "match_loop env images network_dir filter_name log_dir indices nets w =
     (Inr (Inr (nets @ map (pair_network network_dir filter_name) indices)),
      run_commands env (map (pair_command images network_dir filter_name log_dir) indices) w)"
  using assms
proof (induction indices arbitrary: nets w)
  case Nil
  show ?case by simp
next
  case (Cons i indices)
  from Cons.prems have i: "i + 1 < length images" by simp
  from Cons.prems show ?case
    by (simp only: match_loop_step [OF i]) (simp add: Cons.IH)
qed

lemma match_loop_first_failure:
  assumes "\<forall>i\<in>set before. i + 1 < length images" and "index + 1 < length images"
    and "all_succeed env (map (pair_command images network_dir filter_name log_dir) before) w"
    and "tool_status env
           (run_commands env (map (pair_command images network_dir filter_name log_dir) before) w)
           (pair_command images network_dir filter_name log_dir index) \<noteq> 0"
  shows "match_loop env images network_dir filter_name log_dir (before @ index # later) nets w =
     (Inr (Inl (tool_status env
           (run_commands env (map (pair_command images network_dir filter_name log_dir) before) w)
           (pair_command images network_dir filter_name log_dir index))),
      log_event (Print (''Failed to match framelets ['' @ images ! index @ ''] and [''
                              @ images ! (index + 1) @ '']''))
        (run_commands env
           (map (pair_command images network_dir filter_name log_dir) (before @ [index])) w))"
  using assms(1,3,4)
proof (induction before arbitrary: nets w)
  case Nil
  then show ?case
    by (simp only: append_Nil match_loop_step [OF assms(2)]) simp
next
  case (Cons i before)
  from Cons.prems have i: "i + 1 < length images" by simp
  from Cons.prems show ?case
    by (simp only: append_Cons match_loop_step [OF i]) (simp add: Cons.IH)
qed

lemma os_path_join_nonempty: "b \<noteq> [] \<Longrightarrow> os_path_join a b \<noteq> []"
  by (simp add: os_path_join_def)

lemma pair_command_explicit:
  "pair_command images network_dir filter_name log_dir i =
     ''findfeatures algorithm=sift/sift''
     @ '' match='' @ images ! i
     @ '' from='' @ images ! (i + 1)
     @ '' onet='' @ os_path_join network_dir
                      (filter_name @ ''_'' @ str_nat i @ ''_'' @ str_nat (i + 1) @ ''.net'')
     @ '' networkID='' @ filter_name @ ''_'' @ str_nat i @ ''_'' @ str_nat (i + 1)
     @ '' pointID='' @ [dquote] @ filter_name @ ''_'' @ str_nat i @ ''_'' @ str_nat (i + 1)
         @ ''????'' @ [dquote]
     @ (if log_dir \<noteq> []
        then '' debug=true debuglog='' @ [dquote]
             @ os_path_join log_dir
                 (filter_name @ ''_'' @ str_nat i @ ''_'' @ str_nat (i + 1) @ ''.log'')
             @ [dquote]
        else [])"
  by (simp add: pair_command_def match_framelets_command_def network_id_of_def
        pair_network_def Let_def os_path_join_nonempty)

text \<open>
  C1. Once the directories of \<^verbatim>\<open>generate_filter_control\<close> are in place, the commands
  of the matching loop are, for the indices 0, 1, ... up to the number of images minus
  two, the \<^verbatim>\<open>findfeatures\<close> command of the images \<open>i\<close> and \<open>i + 1\<close> with the network
  ID \<^verbatim>\<open>{filter}_{i}_{i+1}\<close>. When the first \<open>k\<close> of them exit with 0 and the next one
  does not, the function returns that status; the commands it has run are these
  \<open>k + 1\<close>, in this order, followed by the message that the match failed: no later
  pair is matched and \<^verbatim>\<open>cnetmerge\<close> is not run. When all of them exit with 0, all were
  run in order and the networks are merged.
\<close>

theorem generate_filter_control_fail_fast:
  assumes dirs: "make_control_dirs output_network log_dir w = (Inr (), w1)"
    and cmds: "commands =
      map (pair_command images (os_path_dirname output_network) filter_name log_dir)
        [0 ..< length images - 1]"
  shows "(\<forall>i. i < length images - 1 \<longrightarrow>
            commands ! i =
              ''findfeatures algorithm=sift/sift''
              @ '' match='' @ images ! i
              @ '' from='' @ images ! (i + 1)
              @ '' onet='' @ os_path_join (os_path_dirname output_network)
                      (filter_name @ ''_'' @ str_nat i @ ''_'' @ str_nat (i + 1) @ ''.net'')
              @ '' networkID='' @ filter_name @ ''_'' @ str_nat i @ ''_'' @ str_nat (i + 1)
              @ '' pointID='' @ [dquote] @ filter_name @ ''_'' @ str_nat i @ ''_''
                  @ str_nat (i + 1) @ ''????'' @ [dquote]
              @ (if log_dir \<noteq> []
                 then '' debug=true debuglog='' @ [dquote]
                      @ os_path_join log_dir
                          (filter_name @ ''_'' @ str_nat i @ ''_'' @ str_nat (i + 1) @ ''.log'')
                      @ [dquote]
                 else []))
         \<and> (\<forall>k. k < length images - 1
                 \<and> all_succeed env (take k commands) w1
                 \<and> tool_status env (run_commands env (take k commands) w1) (commands ! k) \<noteq> 0
               \<longrightarrow>
                 fst (generate_filter_control env images output_network filter_name log_dir w)
                   = Inr (tool_status env (run_commands env (take k commands) w1) (commands ! k))
                 \<and> trace (snd (generate_filter_control env images output_network filter_name
                                 log_dir w))
                   = trace w1 @ map System (take (Suc k) commands)
                     @ [Print (''Failed to match framelets ['' @ images ! k @ ''] and [''
                               @ images ! (k + 1) @ '']'')])
         \<and> (all_succeed env commands w1 \<longrightarrow>
               generate_filter_control env images output_network filter_name log_dir w
                 = merge_networks env
                     (map (pair_network (os_path_dirname output_network) filter_name)
                        [0 ..< length images - 1])
                     output_network filter_name (run_commands env commands w1))"
proof (intro conjI allI impI)
  fix i
  assume "i < length images - 1"
  then show "commands ! i =
              ''findfeatures algorithm=sift/sift''
              @ '' match='' @ images ! i
              @ '' from='' @ images ! (i + 1)
              @ '' onet='' @ os_path_join (os_path_dirname output_network)
                      (filter_name @ ''_'' @ str_nat i @ ''_'' @ str_nat (i + 1) @ ''.net'')
              @ '' networkID='' @ filter_name @ ''_'' @ str_nat i @ ''_'' @ str_nat (i + 1)
              @ '' pointID='' @ [dquote] @ filter_name @ ''_'' @ str_nat i @ ''_''
                  @ str_nat (i + 1) @ ''????'' @ [dquote]
              @ (if log_dir \<noteq> []
                 then '' debug=true debuglog='' @ [dquote]
                      @ os_path_join log_dir
                          (filter_name @ ''_'' @ str_nat i @ ''_'' @ str_nat (i + 1) @ ''.log'')
                      @ [dquote]
                 else [])"
    unfolding cmds by (simp only: nth_map length_upt diff_zero nth_upt add_0 pair_command_explicit)
next
  fix k
  let ?pc = "pair_command images (os_path_dirname output_network) filter_name log_dir"
  let ?n = "length images - 1"
  assume a: "k < ?n \<and> all_succeed env (take k commands) w1
                 \<and> tool_status env (run_commands env (take k commands) w1) (commands ! k) \<noteq> 0"
  then have k: "k < ?n" by simp
  have tk: "take k commands = map ?pc [0 ..< k]"
    using k by (simp add: cmds take_map)
  have tsk: "take (Suc k) commands = map ?pc ([0 ..< k] @ [k])"
    using k by (simp add: cmds take_map)
  have nk: "commands ! k = ?pc k"
    using k by (simp add: cmds)
  have split: "[0 ..< ?n] = [0 ..< k] @ k # [Suc k ..< ?n]"
    using k by (metis le0 upt_conv_Cons upt_add_eq_append le_add_diff_inverse less_imp_le_nat)
  have v1: "\<forall>i\<in>set [0 ..< k]. i + 1 < length images"
    using k by auto
  have v2: "k + 1 < length images"
    using k by simp
  from a have ok: "all_succeed env (map ?pc [0 ..< k]) w1"
    and bad: "tool_status env (run_commands env (map ?pc [0 ..< k]) w1) (?pc k) \<noteq> 0"
    by (simp_all add: tk nk)
  have loop: "match_loop env images (os_path_dirname output_network) filter_name log_dir
          [0 ..< ?n] [] w1 =
        (Inr (Inl (tool_status env (run_commands env (map ?pc [0 ..< k]) w1) (?pc k))),
         log_event (Print (''Failed to match framelets ['' @ images ! k @ ''] and [''
                              @ images ! (k + 1) @ '']''))
           (run_commands env (map ?pc ([0 ..< k] @ [k])) w1))"
    by (subst split) (rule match_loop_first_failure [OF v1 v2 ok bad])
  have g: "generate_filter_control env images output_network filter_name log_dir w =
        (Inr (tool_status env (run_commands env (map ?pc [0 ..< k]) w1) (?pc k)),
         log_event (Print (''Failed to match framelets ['' @ images ! k @ ''] and [''
                              @ images ! (k + 1) @ '']''))
           (run_commands env (map ?pc ([0 ..< k] @ [k])) w1))"
    by (simp only: generate_filter_control_def dirs loop prod.case sum.case)
  show "fst (generate_filter_control env images output_network filter_name log_dir w)
          = Inr (tool_status env (run_commands env (take k commands) w1) (commands ! k))"
    by (simp only: g tk nk fst_conv)
  show "trace (snd (generate_filter_control env images output_network filter_name log_dir w))
          = trace w1 @ map System (take (Suc k) commands)
            @ [Print (''Failed to match framelets ['' @ images ! k @ ''] and [''
                      @ images ! (k + 1) @ '']'')]"
    by (simp only: g tsk snd_conv) (simp add: log_event_def trace_run_commands)
next
  let ?pc = "pair_command images (os_path_dirname output_network) filter_name log_dir"
  assume "all_succeed env commands w1"
  then have ok: "all_succeed env (map ?pc [0 ..< length images - 1]) w1"
    by (simp only: cmds)
  have v: "\<forall>i\<in>set [0 ..< length images - 1]. i + 1 < length images"
    by auto
  have loop: "match_loop env images (os_path_dirname output_network) filter_name log_dir
          [0 ..< length images - 1] [] w1 =
        (Inr (Inr ([] @ map (pair_network (os_path_dirname output_network) filter_name)
                          [0 ..< length images - 1])),
         run_commands env (map ?pc [0 ..< length images - 1]) w1)"
    by (rule match_loop_all_succeed [OF v ok])
  show "generate_filter_control env images output_network filter_name log_dir w
          = merge_networks env
              (map (pair_network (os_path_dirname output_network) filter_name)
                 [0 ..< length images - 1])
              output_network filter_name (run_commands env commands w1)"
    by (simp only: generate_filter_control_def dirs loop prod.case sum.case append_Nil cmds)
qed

theorem generate_filter_control_fail_fast_witness:
  "fst (generate_filter_control (const_env 256 []) [''A'', ''B'', ''C''] ''nets/out.net'' ''RED''
          ''logs/'' empty_world) = Inr 256
   \<and> trace (snd (generate_filter_control (const_env 256 []) [''A'', ''B'', ''C''] ''nets/out.net''
                   ''RED'' ''logs/'' empty_world))
     = [Mkdir ''nets'', Mkdir ''logs/'',
        System (''findfeatures algorithm=sift/sift match=A from=B onet=nets/RED_0_1.net''
                @ '' networkID=RED_0_1 pointID='' @ [dquote] @ ''RED_0_1????'' @ [dquote]
                @ '' debug=true debuglog='' @ [dquote] @ ''logs/RED_0_1.log'' @ [dquote]),
        Print ''Failed to match framelets [A] and [B]'']"
proof -
  let ?env = "const_env 256 []"
  let ?images = "[''A'', ''B'', ''C'']"
  let ?w1 = "snd (make_control_dirs ''nets/out.net'' ''logs/'' empty_world)"
  let ?commands = "map (pair_command ?images (os_path_dirname ''nets/out.net'') ''RED'' ''logs/'')
                     [0 ..< length ?images - 1]"
  have "fst (make_control_dirs ''nets/out.net'' ''logs/'' empty_world) = Inr ()"
    by code_simp
  then have dirs: "make_control_dirs ''nets/out.net'' ''logs/'' empty_world = (Inr (), ?w1)"
    by (metis prod.collapse)
  have hyp: "0 < length ?images - 1
             \<and> all_succeed ?env (take 0 ?commands) ?w1
             \<and> tool_status ?env (run_commands ?env (take 0 ?commands) ?w1) (?commands ! 0) \<noteq> 0"
    by (simp add: const_env_def)
  have st: "tool_status ?env v c = 256" for v c
    by (simp add: const_env_def)
  have t: "trace ?w1 = [Mkdir ''nets'', Mkdir ''logs/'']"
    by code_simp
  have c: "take (Suc 0) ?commands =
      [''findfeatures algorithm=sift/sift match=A from=B onet=nets/RED_0_1.net''
                @ '' networkID=RED_0_1 pointID='' @ [dquote] @ ''RED_0_1????'' @ [dquote]
                @ '' debug=true debuglog='' @ [dquote] @ ''logs/RED_0_1.log'' @ [dquote]]"
    by code_simp
  from generate_filter_control_fail_fast
         [where env = ?env and images = ?images and filter_name = "''RED''", OF dirs refl,
          THEN conjunct2, THEN conjunct1, rule_format, OF hyp]
  show ?thesis
    unfolding st t c by simp
qed



section \<open>Exit statuses\<close>

lemma snd_os_system_status [simp]:
  "snd (os_system (env\<lparr>tool_status := s\<rparr>) command w) = snd (os_system env command w)"
  by (simp add: os_system_def)

lemma popen_communicate_status [simp]:
  "popen_communicate (env\<lparr>tool_status := s\<rparr>) command w = popen_communicate env command w"
  by (simp add: popen_communicate_def)

lemma snd_os_system_mkdir_status [simp]:
  "snd (os_system_mkdir (env\<lparr>tool_status := s\<rparr>) d w) = snd (os_system_mkdir env d w)"
  by (simp add: os_system_mkdir_def)

lemma ingest_framelet_status:
  "ingest_framelet (env\<lparr>tool_status := s\<rparr>) filename output_dir w =
     ingest_framelet env filename output_dir w"
  by (simp add: ingest_framelet_def Let_def)

lemma ingest_loop_status:
  "ingest_loop (env\<lparr>tool_status := s\<rparr>) filenames output_dir acc w =
     ingest_loop env filenames output_dir acc w"
  by (induction filenames arbitrary: acc w)
    (simp_all add: ingest_framelet_status split: prod.splits sum.splits)

lemma ingest_observation_status:
  "ingest_observation (env\<lparr>tool_status := s\<rparr>) filenames output_dir w =
     ingest_observation env filenames output_dir w"
  by (simp add: ingest_observation_def ingest_loop_status split: prod.splits sum.splits)

lemma make_map_file_status:
  "make_map_file (env\<lparr>tool_status := s\<rparr>) images output_file w =
     make_map_file env images output_file w"
  by (simp add: make_map_file_def Let_def split: prod.splits sum.splits)

lemma project_framelet_status:
  "project_framelet (env\<lparr>tool_status := s\<rparr>) image_file map_file output_file trim w =
     project_framelet env image_file map_file output_file trim w"
  by (simp add: project_framelet_def Let_def)

lemma project_loop_status:
  "project_loop (env\<lparr>tool_status := s\<rparr>) filenames output_dir map_file trim acc w =
     project_loop env filenames output_dir map_file trim acc w"
  by (induction filenames arbitrary: acc w)
    (simp_all add: project_framelet_status Let_def split: prod.splits sum.splits)

lemma project_observation_status:
  "project_observation (env\<lparr>tool_status := s\<rparr>) filenames output_dir map_file trim w =
     project_observation env filenames output_dir map_file trim w"
  by (simp add: project_observation_def project_loop_status split: prod.splits sum.splits)

lemma mosaic_filter_status:
  "mosaic_filter (env\<lparr>tool_status := s\<rparr>) filenames output_file map_file w =
     mosaic_filter env filenames output_file map_file w"
  by (simp add: mosaic_filter_def Let_def split: prod.splits sum.splits)

lemma stack_mosaics_status:
  "stack_mosaics (env\<lparr>tool_status := s\<rparr>) mosaics output_file w =
     stack_mosaics env mosaics output_file w"
  by (simp add: stack_mosaics_def Let_def split: prod.splits sum.splits)

lemma merge_networks_status:
  assumes "merge_networks env nets output_network filter_name w = (Inr st, w')"
  shows "st = tool_status env
                (snd (make_file_list nets (os_path_join temp_dir ''nets.lis'') w))
                (merge_command (os_path_join temp_dir ''nets.lis'') output_network filter_name)"
  using assms
  by (auto simp: merge_networks_def Let_def os_system_def split: prod.splits sum.splits)

lemma generate_filter_control_all_succeed:
  assumes "make_control_dirs output_network log_dir w = (Inr (), w1)"
    and "all_succeed env
           (map (pair_command images (os_path_dirname output_network) filter_name log_dir)
              [0 ..< length images - 1]) w1"
  shows "generate_filter_control env images output_network filter_name log_dir w
          = merge_networks env
              (map (pair_network (os_path_dirname output_network) filter_name)
                 [0 ..< length images - 1])
              output_network filter_name
              (run_commands env
                 (map (pair_command images (os_path_dirname output_network) filter_name log_dir)
                    [0 ..< length images - 1]) w1)"
proof -
  have v: "\<forall>i\<in>set [0 ..< length images - 1]. i + 1 < length images"
    by auto
  from match_loop_all_succeed [OF v assms(2), of "[]"] assms(1) show ?thesis
    by (simp add: generate_filter_control_def)
qed

text \<open>
  C7. The exit status of the tool is what \<^verbatim>\<open>match_framelets\<close>, \<^verbatim>\<open>export_image\<close> and
  \<^verbatim>\<open>export_mosaic\<close> return. When all matches succeed, a status returned by
  \<^verbatim>\<open>generate_filter_control\<close> is the exit status of \<^verbatim>\<open>cnetmerge\<close>. The stages
  \<^verbatim>\<open>ingest_framelet\<close>, \<^verbatim>\<open>ingest_observation\<close>, \<^verbatim>\<open>make_map_file\<close>,
  \<^verbatim>\<open>project_framelet\<close>, \<^verbatim>\<open>project_observation\<close>, \<^verbatim>\<open>mosaic_filter\<close> and
  \<^verbatim>\<open>stack_mosaics\<close> discard it: with any other exit statuses of the tools they return
  the same result and leave the same world.
\<close>

theorem exit_status_propagation:
  "fst (match_framelets env base train net_file network_id point_id lg w)
     = Inr (tool_status env w
              (match_framelets_command base train net_file network_id point_id lg))
   \<and> fst (export_image env image_name export_file w)
     = Inr (tool_status env w (''tgocassisrdrgen from='' @ image_name @ '' to='' @ export_file))
   \<and> fst (export_mosaic env mosaic export_file w)
     = Inr (tool_status env w
              (''isis2pds from='' @ mosaic @ '' to='' @ export_file @ '' pdsversion=PDS4''))
   \<and> (\<forall>w1 st w'.
         make_control_dirs output_network log_dir w = (Inr (), w1)
         \<and> all_succeed env
             (map (pair_command images (os_path_dirname output_network) filter_name log_dir)
                [0 ..< length images - 1]) w1
         \<and> generate_filter_control env images output_network filter_name log_dir w = (Inr st, w')
       \<longrightarrow>
         st = tool_status env
                (snd (make_file_list
                        (map (pair_network (os_path_dirname output_network) filter_name)
                           [0 ..< length images - 1])
                        (os_path_join temp_dir ''nets.lis'')
                        (run_commands env
                           (map (pair_command images (os_path_dirname output_network)
                                   filter_name log_dir) [0 ..< length images - 1]) w1)))
                (''cnetmerge clist='' @ os_path_join temp_dir ''nets.lis''
                 @ '' onet='' @ output_network @ '' network='' @ filter_name
                 @ '' description='' @ [dquote] @ ''network for the '' @ filter_name
                 @ '' filter'' @ [dquote]))
   \<and> (\<forall>s. ingest_framelet (env\<lparr>tool_status := s\<rparr>) filename output_dir w
            = ingest_framelet env filename output_dir w)
   \<and> (\<forall>s. ingest_observation (env\<lparr>tool_status := s\<rparr>) filenames output_dir w
            = ingest_observation env filenames output_dir w)
   \<and> (\<forall>s. make_map_file (env\<lparr>tool_status := s\<rparr>) images map_file w
            = make_map_file env images map_file w)
   \<and> (\<forall>s. project_framelet (env\<lparr>tool_status := s\<rparr>) image_file map_file output_file trim w
            = project_framelet env image_file map_file output_file trim w)
   \<and> (\<forall>s. project_observation (env\<lparr>tool_status := s\<rparr>) filenames output_dir map_file trim w
            = project_observation env filenames output_dir map_file trim w)
   \<and> (\<forall>s. mosaic_filter (env\<lparr>tool_status := s\<rparr>) filenames output_file map_file w
            = mosaic_filter env filenames output_file map_file w)
   \<and> (\<forall>s. stack_mosaics (env\<lparr>tool_status := s\<rparr>) mosaics output_file w
            = stack_mosaics env mosaics output_file w)"
proof -
  have p1: "fst (match_framelets env base train net_file network_id point_id lg w)
     = Inr (tool_status env w
              (match_framelets_command base train net_file network_id point_id lg))"
    by (simp add: match_framelets_eq)
  have p2: "fst (export_image env image_name export_file w)
     = Inr (tool_status env w (''tgocassisrdrgen from='' @ image_name @ '' to='' @ export_file))"
    by (simp add: export_image_def os_system_def Let_def)
  have p3: "fst (export_mosaic env mosaic export_file w)
     = Inr (tool_status env w
              (''isis2pds from='' @ mosaic @ '' to='' @ export_file @ '' pdsversion=PDS4''))"
    by (simp add: export_mosaic_def os_system_def Let_def)
  have p4: "\<forall>w1 st w'.
         make_control_dirs output_network log_dir w = (Inr (), w1)
         \<and> all_succeed env
             (map (pair_command images (os_path_dirname output_network) filter_name log_dir)
                [0 ..< length images - 1]) w1
         \<and> generate_filter_control env images output_network filter_name log_dir w = (Inr st, w')
       \<longrightarrow>
         st = tool_status env
                (snd (make_file_list
                        (map (pair_network (os_path_dirname output_network) filter_name)
                           [0 ..< length images - 1])
                        (os_path_join temp_dir ''nets.lis'')
                        (run_commands env
                           (map (pair_command images (os_path_dirname output_network)
                                   filter_name log_dir) [0 ..< length images - 1]) w1)))
                (''cnetmerge clist='' @ os_path_join temp_dir ''nets.lis''
                 @ '' onet='' @ output_network @ '' network='' @ filter_name
                 @ '' description='' @ [dquote] @ ''network for the '' @ filter_name
                 @ '' filter'' @ [dquote])"
  proof (intro allI impI, elim conjE)
    fix w1 st w'
    assume d: "make_control_dirs output_network log_dir w = (Inr (), w1)"
      and a: "all_succeed env
             (map (pair_command images (os_path_dirname output_network) filter_name log_dir)
                [0 ..< length images - 1]) w1"
      and g: "generate_filter_control env images output_network filter_name log_dir w
                = (Inr st, w')"
    from generate_filter_control_all_succeed [OF d a] g
    have "merge_networks env
              (map (pair_network (os_path_dirname output_network) filter_name)
                 [0 ..< length images - 1])
              output_network filter_name
              (run_commands env
                 (map (pair_command images (os_path_dirname output_network) filter_name log_dir)
                    [0 ..< length images - 1]) w1) = (Inr st, w')"
      by simp
    from merge_networks_status [OF this] show "st = tool_status env
                (snd (make_file_list
                        (map (pair_network (os_path_dirname output_network) filter_name)
                           [0 ..< length images - 1])
                        (os_path_join temp_dir ''nets.lis'')
                        (run_commands env
                           (map (pair_command images (os_path_dirname output_network)
                                   filter_name log_dir) [0 ..< length images - 1]) w1)))
                (''cnetmerge clist='' @ os_path_join temp_dir ''nets.lis''
                 @ '' onet='' @ output_network @ '' network='' @ filter_name
                 @ '' description='' @ [dquote] @ ''network for the '' @ filter_name
                 @ '' filter'' @ [dquote])"
      by (simp add: merge_command_def)
  qed
  show ?thesis
    by (intro conjI allI p1 p2 p3 p4 ingest_framelet_status ingest_observation_status
          make_map_file_status project_framelet_status project_observation_status
          mosaic_filter_status stack_mosaics_status)
qed

theorem exit_status_propagation_witness:
  "fst (generate_filter_control merge_fail_env [''A'', ''B''] ''nets/out.net'' ''RED'' ''logs/''
          empty_world) = Inr 5
   \<and> all_succeed merge_fail_env
        (map (pair_command [''A'', ''B''] (os_path_dirname ''nets/out.net'') ''RED'' ''logs/'')
           [0 ..< length [''A'', ''B''] - 1])
        (snd (make_control_dirs ''nets/out.net'' ''logs/'' empty_world))
   \<and> (5 :: int) = tool_status merge_fail_env
        (snd (make_file_list
                (map (pair_network (os_path_dirname ''nets/out.net'') ''RED'')
                   [0 ..< length [''A'', ''B''] - 1])
                (os_path_join temp_dir ''nets.lis'')
                (run_commands merge_fail_env
                   (map (pair_command [''A'', ''B''] (os_path_dirname ''nets/out.net'') ''RED'' ''logs/'')
                      [0 ..< length [''A'', ''B''] - 1])
                   (snd (make_control_dirs ''nets/out.net'' ''logs/'' empty_world)))))
        (''cnetmerge clist='' @ os_path_join temp_dir ''nets.lis''
         @ '' onet='' @ ''nets/out.net'' @ '' network='' @ ''RED''
         @ '' description='' @ [dquote] @ ''network for the '' @ ''RED''
         @ '' filter'' @ [dquote])"
proof -
  let ?w1 = "snd (make_control_dirs ''nets/out.net'' ''logs/'' empty_world)"
  let ?g = "generate_filter_control merge_fail_env [''A'', ''B''] ''nets/out.net'' ''RED'' ''logs/''
              empty_world"
  have "fst (make_control_dirs ''nets/out.net'' ''logs/'' empty_world) = Inr ()"
    by code_simp
  then have d: "make_control_dirs ''nets/out.net'' ''logs/'' empty_world = (Inr (), ?w1)"
    by (metis prod.collapse)
  have a: "all_succeed merge_fail_env
        (map (pair_command [''A'', ''B''] (os_path_dirname ''nets/out.net'') ''RED'' ''logs/'')
           [0 ..< length [''A'', ''B''] - 1]) ?w1"
    by code_simp
  have f: "fst ?g = Inr 5"
    by code_simp
  then have g: "?g = (Inr 5, snd ?g)"
    by (metis prod.collapse)
  from exit_status_propagation
         [where env = merge_fail_env and w = empty_world and images = "[''A'', ''B'']"
            and output_network = "''nets/out.net''" and log_dir = "''logs/''"
            and filter_name = "''RED''",
          THEN conjunct2, THEN conjunct2, THEN conjunct2, THEN conjunct1, rule_format,
          OF conjI [OF d conjI [OF a g]]]
  show ?thesis
    using f a by (intro conjI)
qed

end
